theory Spec2Isabelle
  imports Complex_Main "HOL-Library.Sublist"
begin

section \<open>Python strings\<close>

text \<open>
  A Python \<open>str\<close> is modelled by its UTF-8 encoding: a \<^typ>\<open>string\<close> is the list of the
  bytes of the text. Every character the two scripts test for (delimiters, quotes, the
  keywords of the error classification, ASCII letters) is a single byte below 128, and no
  byte of a multi-byte UTF-8 sequence is below 128, so tests on those characters agree with
  Python's tests on code points.
\<close>

text \<open>
  \<open>str(n)\<close> for a non-negative integer: its decimal digits.
\<close>

definition digit_char :: "nat \<Rightarrow> char" where
  "digit_char d = char_of (48 + d)"

fun str_nat :: "nat \<Rightarrow> string" where
  "str_nat n = (if n < 10 then [digit_char n] else str_nat (n div 10) @ [digit_char (n mod 10)])"

declare str_nat.simps [simp del]

definition str_int :: "int \<Rightarrow> string" where
  "str_int i = (if i < 0 then CHR ''-'' # str_nat (nat (- i)) else str_nat (nat i))"

text \<open>
  \<open>k in msg\<close> on strings: \<open>k\<close> occurs in \<open>msg\<close> as a contiguous substring.
\<close>

fun contains :: "string \<Rightarrow> string \<Rightarrow> bool" where
  "contains [] k = (k = [])"
| "contains (c # cs) k = (prefix k (c # cs) \<or> contains cs k)"

text \<open>
  \<open>str.lower()\<close>. The letters \<open>A\<close> to \<open>Z\<close> become \<open>a\<close> to \<open>z\<close>. KELVIN SIGN
  (U+212A, the bytes E2 84 AA) becomes the ASCII letter \<open>k\<close>. Python lowers every other
  character beyond ASCII to characters beyond ASCII again (LATIN CAPITAL LETTER I WITH DOT
  ABOVE gives \<open>i\<close> and a combining mark, and \<open>i\<close> is in none of the keywords below); those
  bytes are left as they are, which does not change any test for an ASCII keyword.
\<close>

definition lower_char :: "char \<Rightarrow> char" where
  "lower_char c =
     (if 65 \<le> (of_char c :: nat) \<and> (of_char c :: nat) \<le> 90 then char_of (of_char c + (32 :: nat))
      else c)"

definition kelvin_sign :: string where
  "kelvin_sign = [CHR 0xE2, CHR 0x84, CHR 0xAA]"

fun lower :: "string \<Rightarrow> string" where
  "lower [] = []"
| "lower (c # cs) =
     (if take 3 (c # cs) = kelvin_sign then CHR ''k'' # lower (drop 2 cs)
      else lower_char c # lower cs)"

text \<open>
  \<open>str.strip()\<close> removes the characters for which \<open>str.isspace\<close> holds from both ends.
  These are the 29 code points below, each written as its UTF-8 bytes.
\<close>

definition whitespace :: "string list" where
  "whitespace =
     [[CHR 0x09], [CHR 0x0A], [CHR 0x0B], [CHR 0x0C], [CHR 0x0D],
      [CHR 0x1C], [CHR 0x1D], [CHR 0x1E], [CHR 0x1F], [CHR 0x20],
      [CHR 0xC2, CHR 0x85], [CHR 0xC2, CHR 0xA0],
      [CHR 0xE1, CHR 0x9A, CHR 0x80],
      [CHR 0xE2, CHR 0x80, CHR 0x80], [CHR 0xE2, CHR 0x80, CHR 0x81],
      [CHR 0xE2, CHR 0x80, CHR 0x82], [CHR 0xE2, CHR 0x80, CHR 0x83],
      [CHR 0xE2, CHR 0x80, CHR 0x84], [CHR 0xE2, CHR 0x80, CHR 0x85],
      [CHR 0xE2, CHR 0x80, CHR 0x86], [CHR 0xE2, CHR 0x80, CHR 0x87],
      [CHR 0xE2, CHR 0x80, CHR 0x88], [CHR 0xE2, CHR 0x80, CHR 0x89],
      [CHR 0xE2, CHR 0x80, CHR 0x8A],
      [CHR 0xE2, CHR 0x80, CHR 0xA8], [CHR 0xE2, CHR 0x80, CHR 0xA9],
      [CHR 0xE2, CHR 0x80, CHR 0xAF], [CHR 0xE2, CHR 0x81, CHR 0x9F],
      [CHR 0xE3, CHR 0x80, CHR 0x80]]"

text \<open>
  The number of bytes of the pattern of \<open>pats\<close> the string starts with, 0 when it starts
  with none.
\<close>

definition ws_len :: "string list \<Rightarrow> string \<Rightarrow> nat" where
  "ws_len pats s = (case find (\<lambda>w. prefix w s) pats of None \<Rightarrow> 0 | Some w \<Rightarrow> length w)"

function lstrip_with :: "string list \<Rightarrow> string \<Rightarrow> string" where
  "lstrip_with pats s =
     (if ws_len pats s = 0 then s else lstrip_with pats (drop (ws_len pats s) s))"
  by pat_completeness auto
termination
proof (relation "measure (\<lambda>(pats, s). length s)")
  show "wf (measure (\<lambda>(pats :: string list, s :: string). length s))"
    by simp
next
  fix pats :: "string list" and s :: string
  assume pos: "ws_len pats s \<noteq> 0"
  then obtain w where "find (\<lambda>w. prefix w s) pats = Some w" and "w \<noteq> []"
    by (auto simp: ws_len_def split: option.splits)
  then have "prefix w s" and "w \<noteq> []"
    by (auto simp: find_Some_iff)
  then have "s \<noteq> []"
    by auto
  with pos show "((pats, drop (ws_len pats s) s), (pats, s)) \<in> measure (\<lambda>(pats, s). length s)"
    by simp
qed

declare lstrip_with.simps [simp del]

definition lstrip :: "string \<Rightarrow> string" where
  "lstrip s = lstrip_with whitespace s"

text \<open>
  Stripping on the right looks for the same byte sequences at the end of the string. In
  UTF-8 a lead byte is never a continuation byte, so a sequence found at the end is a whole
  character.
\<close>

definition rstrip :: "string \<Rightarrow> string" where
  "rstrip s = rev (lstrip_with (map rev whitespace) (rev s))"

definition strip :: "string \<Rightarrow> string" where
  "strip s = rstrip (lstrip s)"

section \<open>Provider calls\<close>

text \<open>
  The two text-generation services are outside the repository. A service is an oracle: the
  outcome of its \<open>n\<close>-th invocation (counted from 0 over the whole run) for a model name
  and a request. An outcome is a returned response object or a raised exception, of which
  the scripts read \<open>type(e).__name__\<close> and \<open>str(e)\<close>. \<open>Raises\<close> stands for an exception
  raised anywhere in the \<open>try\<close> body of the call; only subclasses of \<open>Exception\<close> are
  modelled, as only those are caught.
\<close>

datatype failure = Failure (type_name: string) (message: string)

datatype 'r outcome = Raises failure | Returns 'r

text \<open>
  What is observable of the run besides its results: how many provider invocations were
  made, and the durations passed to \<open>time.sleep\<close>, in order.
\<close>

record world =
  calls :: nat
  slept :: "real list"

record call_result =
  response_text :: string
  error :: string

definition SYSTEM_NO :: string where
  "SYSTEM_NO =
     ''Du er n'' @ [CHR 0xC3, CHR 0xB8] @ ''ytral og faktabasert. '' @
     ''Svar p'' @ [CHR 0xC3, CHR 0xA5] @ '' norsk (Bokm'' @ [CHR 0xC3, CHR 0xA5] @ ''l). Unng'' @
       [CHR 0xC3, CHR 0xA5] @ '' stereotyper. '' @
     ''Hold svaret kort (60'' @ [CHR 0xE2, CHR 0x80, CHR 0x93] @ ''120 ord) og informativt.''"

subsection \<open>Gemini: \<open>call_gemini_safe\<close>\<close>

definition MAX_RETRIES :: nat where
  "MAX_RETRIES = 6"

text \<open>
  A candidate of a Gemini response: the texts of the parts of its content (\<open>None\<close> when
  the content or its list of parts is missing or empty; a part without text counts with the
  empty text), and its finish reason as the f-string prints it.
\<close>

record candidate =
  cand_parts :: "string list option"
  cand_finish_reason :: string

record response =
  resp_text :: "string option"
  resp_candidates :: "candidate list"

type_synonym gemini_api = "nat \<Rightarrow> string \<Rightarrow> string \<Rightarrow> response outcome"

definition rate_limited :: "string \<Rightarrow> bool" where
  "rate_limited msg =
     list_ex (contains msg) [''429'', ''rate'', ''quota'', ''resource exhausted'', ''busy'']"

definition safety_blocked :: "string \<Rightarrow> bool" where
  "safety_blocked msg = (contains msg ''safety'' \<or> contains msg ''blocked'')"

definition stitch :: "candidate list \<Rightarrow> string" where
  "stitch cs =
     concat (concat (map (\<lambda>c. case cand_parts c of None \<Rightarrow> []
                               | Some ps \<Rightarrow> filter (\<lambda>t. t \<noteq> []) ps) cs))"

text \<open>
  Lines 49 to 60: the text of the response, \<open>.text\<close> first, the stitched candidates when
  that is empty, stripped.
\<close>

definition extract_text :: "response \<Rightarrow> string" where
  "extract_text resp =
     (let text0 = (case resp_text resp of None \<Rightarrow> [] | Some t \<Rightarrow> t);
          text1 = (if text0 = [] \<and> resp_candidates resp \<noteq> []
                   then stitch (resp_candidates resp) else text0)
      in strip text1)"

text \<open>Lines 61 to 64: the result for a returned response.\<close>

definition gemini_result :: "response \<Rightarrow> call_result" where
  "gemini_result resp =
     (let text = extract_text resp in
      if text = [] then
        (case resp_candidates resp of
           c # _ \<Rightarrow>
             \<lparr>response_text = ''[EMPTY_OR_BLOCKED finish_reason='' @ cand_finish_reason c @ '']'',
              error = []\<rparr>
         | [] \<Rightarrow> \<lparr>response_text = ''[EMPTY]'', error = []\<rparr>)
      else \<lparr>response_text = text, error = []\<rparr>)"

definition full_prompt :: "string \<Rightarrow> string" where
  "full_prompt prompt = SYSTEM_NO @ [CHR 0x0A, CHR 0x0A] @ prompt"

text \<open>
  The loop \<open>for attempt in range(MAX_RETRIES)\<close>: \<open>k\<close> attempts are left, \<open>attempt\<close> is the
  loop variable. \<open>uniform\<close> is the oracle of \<open>random.uniform(0, 1)\<close>, indexed like the
  provider by the invocation that failed.
\<close>

fun gemini_loop ::
  "gemini_api \<Rightarrow> (nat \<Rightarrow> real) \<Rightarrow> string \<Rightarrow> string \<Rightarrow> nat \<Rightarrow> nat \<Rightarrow> world \<Rightarrow> call_result \<times> world"
where
  "gemini_loop api uniform full model_name 0 attempt w =
     (\<lparr>response_text = ''ERROR: too many retries due to rate limits'', error = []\<rparr>, w)"
| "gemini_loop api uniform full model_name (Suc k) attempt w =
     (let w1 = w\<lparr>calls := calls w + 1\<rparr> in
      case api (calls w) model_name full of
        Returns resp \<Rightarrow> (gemini_result resp, w1)
      | Raises e \<Rightarrow>
          (let msg = lower (message e) in
           if rate_limited msg then
             gemini_loop api uniform full model_name k (attempt + 1)
               (w1\<lparr>slept := slept w1 @ [min (2 ^ attempt + uniform (calls w)) 30]\<rparr>)
           else if safety_blocked msg then (\<lparr>response_text = ''(blocked)'', error = []\<rparr>, w1)
           else (\<lparr>response_text = ''[ERROR]'', error = type_name e @ '': '' @ message e\<rparr>, w1)))"

definition call_gemini_safe ::
  "gemini_api \<Rightarrow> (nat \<Rightarrow> real) \<Rightarrow> string \<Rightarrow> string \<Rightarrow> world \<Rightarrow> call_result \<times> world"
where
  "call_gemini_safe api uniform prompt model_name w =
     gemini_loop api uniform (full_prompt prompt) model_name MAX_RETRIES 0 w"

subsection \<open>OpenAI: \<open>call_openai_chat_with_retries\<close>\<close>

definition RETRIES :: nat where
  "RETRIES = 3"

definition RETRY_BACKOFF :: real where
  "RETRY_BACKOFF = 2.0"

definition MAX_TOKENS :: nat where
  "MAX_TOKENS = 600"

text \<open>A value the scripts put into a result dictionary: \<open>None\<close>, a string or an integer.\<close>

datatype pyval = PNone | PStr string | PInt int

record usage =
  usage_prompt_tokens :: int
  usage_completion_tokens :: int
  usage_total_tokens :: int

text \<open>
  A chat completion: the \<open>message.content\<close> of each choice (\<open>None\<close> is Python's \<open>None\<close>)
  and the usage counters (\<open>None\<close> when the response has none).
\<close>

record chat_response =
  choices :: "string option list"
  resp_usage :: "usage option"

record openai_result = call_result +
  prompt_tokens :: pyval
  completion_tokens :: pyval
  total_tokens :: pyval

text \<open>
  The request: the model, the system message, the user message and
  \<open>max_completion_tokens\<close>.
\<close>

type_synonym openai_api =
  "nat \<Rightarrow> string \<Rightarrow> string \<Rightarrow> string \<Rightarrow> nat \<Rightarrow> chat_response outcome"

definition usage_field :: "usage option \<Rightarrow> (usage \<Rightarrow> int) \<Rightarrow> pyval" where
  "usage_field u f = (case u of None \<Rightarrow> PStr [] | Some x \<Rightarrow> PInt (f x))"

text \<open>
  Lines 75 to 92, the \<open>try\<close> body: \<open>r.choices[0]\<close> raises \<open>IndexError\<close> on an empty list,
  inside the \<open>try\<close>.
\<close>

definition openai_try :: "chat_response outcome \<Rightarrow> openai_result outcome" where
  "openai_try out =
     (case out of
        Raises e \<Rightarrow> Raises e
      | Returns r \<Rightarrow>
          (case choices r of
             [] \<Rightarrow> Raises (Failure ''IndexError'' ''list index out of range'')
           | content # _ \<Rightarrow>
               (let text = strip (case content of None \<Rightarrow> [] | Some t \<Rightarrow> t) in
                Returns \<lparr>response_text = (if text \<noteq> [] then text else ''[EMPTY]''),
                         error = [],
                         prompt_tokens = usage_field (resp_usage r) usage_prompt_tokens,
                         completion_tokens = usage_field (resp_usage r) usage_completion_tokens,
                         total_tokens = usage_field (resp_usage r) usage_total_tokens\<rparr>)))"

text \<open>
  The loop \<open>for attempt in range(1, RETRIES+1)\<close>: both \<open>except\<close> clauses set \<open>last_err\<close>,
  and the sleep after them runs after every failed attempt, the last one too.
\<close>

fun openai_loop ::
  "openai_api \<Rightarrow> string \<Rightarrow> string \<Rightarrow> nat \<Rightarrow> nat \<Rightarrow> string \<Rightarrow> world \<Rightarrow> openai_result \<times> world"
where
  "openai_loop api model prompt 0 attempt last_err w =
     (\<lparr>response_text = ''[ERROR]'', error = last_err,
       prompt_tokens = PStr [], completion_tokens = PStr [], total_tokens = PStr []\<rparr>, w)"
| "openai_loop api model prompt (Suc k) attempt last_err w =
     (let w1 = w\<lparr>calls := calls w + 1\<rparr> in
      case openai_try (api (calls w) model SYSTEM_NO prompt MAX_TOKENS) of
        Returns res \<Rightarrow> (res, w1)
      | Raises e \<Rightarrow>
          openai_loop api model prompt k (attempt + 1) (type_name e @ '': '' @ message e)
            (w1\<lparr>slept := slept w1 @ [RETRY_BACKOFF ^ (attempt - 1)]\<rparr>))"

definition call_openai_chat_with_retries ::
  "openai_api \<Rightarrow> string \<Rightarrow> string \<Rightarrow> world \<Rightarrow> openai_result \<times> world"
where
  "call_openai_chat_with_retries api model prompt w =
     openai_loop api model prompt RETRIES 1 [] w"

section \<open>Input rows\<close>

text \<open>
  A row of \<open>csv.DictReader\<close>: a dictionary from column names to cells. A cell is a string,
  or \<open>None\<close> when the line was shorter than the header.
\<close>

type_synonym input_row = "string \<rightharpoonup> string option"

text \<open>\<open>row.get(k, "")\<close>\<close>

definition row_get :: "input_row \<Rightarrow> string \<Rightarrow> string option" where
  "row_get row k = (case row k of None \<Rightarrow> Some [] | Some v \<Rightarrow> v)"

text \<open>
  \<open>ensure_prompts\<close>, the same in both scripts: \<open>p and p.strip()\<close> is false for \<open>None\<close>,
  for the empty string and for a string that strips to the empty string.
\<close>

definition ensure_prompts :: "input_row \<Rightarrow> string list" where
  "ensure_prompts row =
     (let ps = [row_get row ''prompt_1'', row_get row ''prompt_2'', row_get row ''prompt_3'']
      in List.map_filter
           (\<lambda>p. case p of
                  None \<Rightarrow> None
                | Some s \<Rightarrow> if s \<noteq> [] \<and> strip s \<noteq> [] then Some (strip s) else None) ps)"

text \<open>
  The selection of rows in \<open>main\<close>. \<open>rows_in[0]\<close> raises \<open>IndexError\<close> on an empty list:
  the result is \<open>None\<close> then.
\<close>

definition select_rows :: "string \<Rightarrow> input_row list \<Rightarrow> (nat \<times> input_row) list option" where
  "select_rows mode rows_in =
     (if mode = ''first'' then
        (case rows_in of [] \<Rightarrow> None | r # _ \<Rightarrow> Some [(2, r)])
      else Some (map (\<lambda>(i, r). (i + 2, r)) (List.enumerate 0 rows_in)))"

section \<open>Writing the results\<close>

text \<open>
  A result row is a Python dictionary, written as the list of its items.
\<close>

type_synonym out_row = "(string \<times> pyval) list"

definition of_cell :: "string option \<Rightarrow> pyval" where
  "of_cell c = (case c of None \<Rightarrow> PNone | Some s \<Rightarrow> PStr s)"

text \<open>
  The text the \<open>csv\<close> writer writes for a value: nothing for \<open>None\<close>, a string as it is,
  \<open>str(v)\<close> for anything else.
\<close>

definition field_text :: "pyval \<Rightarrow> string" where
  "field_text v = (case v of PNone \<Rightarrow> [] | PStr s \<Rightarrow> s | PInt i \<Rightarrow> str_int i)"

definition CSV_OUT_DELIMITER :: char where
  "CSV_OUT_DELIMITER = CHR '';''"

definition quotechar :: char where
  "quotechar = CHR 0x22"

definition escapechar :: char where
  "escapechar = CHR 0x5C"

definition lineterminator :: string where
  "lineterminator = [CHR 0x0D, CHR 0x0A]"

text \<open>
  The \<open>csv\<close> writer of the Python library with the dialect of \<open>write_results_csv\<close>:
  \<open>QUOTE_ALL\<close>, \<open>quotechar='"'\<close>, \<open>escapechar='\\'\<close>, and the defaults \<open>doublequote=True\<close>
  and \<open>lineterminator='\r\n'\<close>. Every field is put between quote characters; inside, a
  quote character is doubled and the escape character is preceded by the escape character.
\<close>

definition escape_char :: "char \<Rightarrow> string" where
  "escape_char c =
     (if c = quotechar then [quotechar, c]
      else if c = escapechar then [escapechar, c]
      else [c])"

definition quote_field :: "string \<Rightarrow> string" where
  "quote_field s = quotechar # concat (map escape_char s) @ [quotechar]"

fun join :: "char \<Rightarrow> string list \<Rightarrow> string" where
  "join d [] = []"
| "join d [f] = f"
| "join d (f # g # fs) = f @ d # join d (g # fs)"

definition writerow :: "string list \<Rightarrow> string" where
  "writerow values = join CSV_OUT_DELIMITER (map quote_field values) @ lineterminator"

text \<open>
  \<open>DictWriter\<close>: a dictionary with a key that is not a field name raises \<open>ValueError\<close>
  (\<open>None\<close> here); a field name that is not a key is written as the empty string.
\<close>

definition dict_to_list :: "string list \<Rightarrow> out_row \<Rightarrow> string list option" where
  "dict_to_list fieldnames row =
     (if list_ex (\<lambda>k. k \<notin> set fieldnames) (map fst row) then None
      else Some (map (\<lambda>k. case map_of row k of None \<Rightarrow> [] | Some v \<Rightarrow> field_text v) fieldnames))"

fun writerows :: "string list \<Rightarrow> out_row list \<Rightarrow> string option" where
  "writerows fieldnames [] = Some []"
| "writerows fieldnames (r # rs) =
     (case dict_to_list fieldnames r of
        None \<Rightarrow> None
      | Some values \<Rightarrow>
          (case writerows fieldnames rs of
             None \<Rightarrow> None
           | Some text \<Rightarrow> Some (writerow values @ text)))"

text \<open>
  The byte-order mark that the encoding \<open>utf-8-sig\<close> puts at the start of the file.
\<close>

definition BOM :: string where
  "BOM = [CHR 0xEF, CHR 0xBB, CHR 0xBF]"

text \<open>
  \<open>write_results_csv\<close> without its file name: the bytes of the file, or \<open>None\<close> when
  \<open>writerows\<close> raises. The two scripts differ in the field names only.
\<close>

definition write_results_csv :: "string list \<Rightarrow> out_row list \<Rightarrow> string option" where
  "write_results_csv fieldnames rows =
     (case writerows fieldnames rows of
        None \<Rightarrow> None
      | Some text \<Rightarrow> Some (BOM @ writerow fieldnames @ text))"

definition gemini_fieldnames :: "string list" where
  "gemini_fieldnames =
     [''timestamp_utc'', ''provider'', ''model'',
      ''row_index'', ''name'', ''category'', ''norwegian_title'', ''norwegian_url'',
      ''prompt_id'', ''prompt_text'', ''response_text'', ''error'']"

definition openai_fieldnames :: "string list" where
  "openai_fieldnames =
     [''timestamp_utc'', ''provider'', ''engine'', ''model'',
      ''row_index'', ''name'', ''category'', ''norwegian_title'', ''norwegian_url'',
      ''prompt_id'', ''prompt_text'', ''response_text'',
      ''prompt_tokens'', ''completion_tokens'', ''total_tokens'', ''error'']"

section \<open>The two \<open>main\<close> functions\<close>

text \<open>
  The parsed command line. \<open>argparse\<close> admits only \<open>first\<close> and \<open>all\<close> for \<open>--rows\<close>.
\<close>

record args =
  arg_input :: string
  arg_output :: string
  arg_model :: string
  arg_rows :: string
  arg_sleep :: real

text \<open>
  How a run ends. \<open>SystemExit\<close> carries an integer, which is the exit status, or a message,
  which the interpreter prints before it exits with status 1. An exception that nothing
  catches ends the run with status 1 too. A run that reaches the end of \<open>main\<close> has written
  one file and exits with status 0.
\<close>

datatype system_exit = Exit_code nat | Exit_message string

datatype run = Exits system_exit | Uncaught string | Saved string string

definition exit_status :: "run \<Rightarrow> nat" where
  "exit_status r =
     (case r of
        Exits (Exit_code n) \<Rightarrow> n
      | Exits (Exit_message m) \<Rightarrow> 1
      | Uncaught e \<Rightarrow> 1
      | Saved path bytes \<Rightarrow> 0)"

text \<open>The files a run has written: path and content.\<close>

definition output_files :: "run \<Rightarrow> (string \<times> string) list" where
  "output_files r = (case r of Saved path bytes \<Rightarrow> [(path, bytes)] | _ \<Rightarrow> [])"

text \<open>
  \<open>not os.getenv(k)\<close>: the variable is absent or empty.
\<close>

definition key_missing :: "(string \<rightharpoonup> string) \<Rightarrow> string \<Rightarrow> bool" where
  "key_missing env k = (case env k of None \<Rightarrow> True | Some v \<Rightarrow> v = [])"

subsection \<open>Gemini\<close>

text \<open>\<open>require_key\<close>: \<open>None\<close> when the key is there, the raised \<open>SystemExit\<close> otherwise.\<close>

definition require_key :: "(string \<rightharpoonup> string) \<Rightarrow> system_exit option" where
  "require_key env =
     (if key_missing env ''GOOGLE_API_KEY''
      then Some (Exit_message ''Missing GOOGLE_API_KEY environment variable.'')
      else None)"

text \<open>
  The dictionary appended to \<open>out_rows\<close> (lines 136 to 149). \<open>now\<close> is the value of
  \<open>utc_now_iso()\<close>.
\<close>

definition gemini_out_row ::
  "string \<Rightarrow> string \<Rightarrow> nat \<Rightarrow> input_row \<Rightarrow> nat \<Rightarrow> string \<Rightarrow> call_result \<Rightarrow> out_row"
where
  "gemini_out_row now model visual_idx row j p res =
     [(''timestamp_utc'', PStr now),
      (''provider'', PStr ''gemini''),
      (''model'', PStr model),
      (''row_index'', PStr (str_nat visual_idx)),
      (''name'', of_cell (row_get row ''name'')),
      (''category'', of_cell (row_get row ''category'')),
      (''norwegian_title'', of_cell (row_get row ''norwegian_title'')),
      (''norwegian_url'', of_cell (row_get row ''norwegian_url'')),
      (''prompt_id'', PStr (''p'' @ str_nat j)),
      (''prompt_text'', PStr p),
      (''response_text'', PStr (response_text res)),
      (''error'', PStr (error res))]"

text \<open>
  The loop \<open>for j, p in enumerate(prompts, start=1)\<close> over one row. \<open>clock\<close> is the oracle
  of \<open>utc_now_iso\<close>: the time read when that many provider invocations have been made.
\<close>

fun gemini_prompts_loop ::
  "gemini_api \<Rightarrow> (nat \<Rightarrow> real) \<Rightarrow> (nat \<Rightarrow> string) \<Rightarrow> args \<Rightarrow> nat \<Rightarrow> input_row \<Rightarrow>
   (nat \<times> string) list \<Rightarrow> out_row list \<Rightarrow> world \<Rightarrow> out_row list \<times> world"
where
  "gemini_prompts_loop api uniform clock a visual_idx row [] out_rows w = (out_rows, w)"
| "gemini_prompts_loop api uniform clock a visual_idx row ((j, p) # jps) out_rows w =
     (case call_gemini_safe api uniform p (arg_model a) w of
        (res, w1) \<Rightarrow>
          gemini_prompts_loop api uniform clock a visual_idx row jps
            (out_rows @ [gemini_out_row (clock (calls w1)) (arg_model a) visual_idx row j p res])
            (w1\<lparr>slept := slept w1 @ [arg_sleep a]\<rparr>))"

text \<open>The loop \<open>for (visual_idx, row) in selected\<close>.\<close>

fun gemini_rows_loop ::
  "gemini_api \<Rightarrow> (nat \<Rightarrow> real) \<Rightarrow> (nat \<Rightarrow> string) \<Rightarrow> args \<Rightarrow>
   (nat \<times> input_row) list \<Rightarrow> out_row list \<Rightarrow> world \<Rightarrow> out_row list \<times> world"
where
  "gemini_rows_loop api uniform clock a [] out_rows w = (out_rows, w)"
| "gemini_rows_loop api uniform clock a ((visual_idx, row) # selected) out_rows w =
     (let prompts = ensure_prompts row in
      if prompts = [] then gemini_rows_loop api uniform clock a selected out_rows w
      else
        (case gemini_prompts_loop api uniform clock a visual_idx row
                (List.enumerate 1 prompts) out_rows w of
           (out_rows', w') \<Rightarrow> gemini_rows_loop api uniform clock a selected out_rows' w'))"

text \<open>
  \<open>main\<close> of the Gemini script. \<open>rows_in\<close> is what \<open>read_csv_rows(args.input)\<close> returns,
  the data rows of the input file as the \<open>csv\<close> library reads them.
\<close>

definition gemini_main ::
  "(string \<rightharpoonup> string) \<Rightarrow> gemini_api \<Rightarrow> (nat \<Rightarrow> real) \<Rightarrow> (nat \<Rightarrow> string) \<Rightarrow>
   input_row list \<Rightarrow> args \<Rightarrow> run"
where
  "gemini_main env api uniform clock rows_in a =
     (case require_key env of
        Some e \<Rightarrow> Exits e
      | None \<Rightarrow>
          if rows_in = [] then Exits (Exit_code 3)
          else
            (case select_rows (arg_rows a) rows_in of
               None \<Rightarrow> Uncaught ''IndexError''
             | Some selected \<Rightarrow>
                 (case gemini_rows_loop api uniform clock a selected [] \<lparr>calls = 0, slept = []\<rparr> of
                    (out_rows, w) \<Rightarrow>
                      (case write_results_csv gemini_fieldnames out_rows of
                         None \<Rightarrow> Uncaught ''ValueError''
                       | Some bytes \<Rightarrow> Saved (arg_output a) bytes))))"

subsection \<open>OpenAI\<close>

text \<open>The dictionary appended to \<open>out_rows\<close> (lines 162 to 179).\<close>

definition openai_out_row ::
  "string \<Rightarrow> string \<Rightarrow> nat \<Rightarrow> input_row \<Rightarrow> nat \<Rightarrow> string \<Rightarrow> openai_result \<Rightarrow> out_row"
where
  "openai_out_row now model visual_idx row j p resp =
     [(''timestamp_utc'', PStr now),
      (''provider'', PStr ''openai''),
      (''engine'', PStr ''chat''),
      (''model'', PStr model),
      (''row_index'', PStr (str_nat visual_idx)),
      (''name'', of_cell (row_get row ''name'')),
      (''category'', of_cell (row_get row ''category'')),
      (''norwegian_title'', of_cell (row_get row ''norwegian_title'')),
      (''norwegian_url'', of_cell (row_get row ''norwegian_url'')),
      (''prompt_id'', PStr (''p'' @ str_nat j)),
      (''prompt_text'', PStr p),
      (''response_text'', PStr (response_text resp)),
      (''prompt_tokens'', prompt_tokens resp),
      (''completion_tokens'', completion_tokens resp),
      (''total_tokens'', total_tokens resp),
      (''error'', PStr (error resp))]"

fun openai_prompts_loop ::
  "openai_api \<Rightarrow> (nat \<Rightarrow> string) \<Rightarrow> args \<Rightarrow> nat \<Rightarrow> input_row \<Rightarrow>
   (nat \<times> string) list \<Rightarrow> out_row list \<Rightarrow> world \<Rightarrow> out_row list \<times> world"
where
  "openai_prompts_loop api clock a visual_idx row [] out_rows w = (out_rows, w)"
| "openai_prompts_loop api clock a visual_idx row ((j, p) # jps) out_rows w =
     (case call_openai_chat_with_retries api (arg_model a) p w of
        (resp, w1) \<Rightarrow>
          openai_prompts_loop api clock a visual_idx row jps
            (out_rows @ [openai_out_row (clock (calls w1)) (arg_model a) visual_idx row j p resp])
            (w1\<lparr>slept := slept w1 @ [arg_sleep a]\<rparr>))"

fun openai_rows_loop ::
  "openai_api \<Rightarrow> (nat \<Rightarrow> string) \<Rightarrow> args \<Rightarrow>
   (nat \<times> input_row) list \<Rightarrow> out_row list \<Rightarrow> world \<Rightarrow> out_row list \<times> world"
where
  "openai_rows_loop api clock a [] out_rows w = (out_rows, w)"
| "openai_rows_loop api clock a ((visual_idx, row) # selected) out_rows w =
     (let prompts = ensure_prompts row in
      if prompts = [] then openai_rows_loop api clock a selected out_rows w
      else
        (case openai_prompts_loop api clock a visual_idx row
                (List.enumerate 1 prompts) out_rows w of
           (out_rows', w') \<Rightarrow> openai_rows_loop api clock a selected out_rows' w'))"

text \<open>
  \<open>main\<close> of the OpenAI script: the key is tested in \<open>main\<close> itself, which calls
  \<open>sys.exit(2)\<close>.
\<close>

definition openai_main ::
  "(string \<rightharpoonup> string) \<Rightarrow> openai_api \<Rightarrow> (nat \<Rightarrow> string) \<Rightarrow> input_row list \<Rightarrow> args \<Rightarrow> run"
where
  "openai_main env api clock rows_in a =
     (if key_missing env ''OPENAI_API_KEY'' then Exits (Exit_code 2)
      else if rows_in = [] then Exits (Exit_code 3)
      else
        (case select_rows (arg_rows a) rows_in of
           None \<Rightarrow> Uncaught ''IndexError''
         | Some selected \<Rightarrow>
             (case openai_rows_loop api clock a selected [] \<lparr>calls = 0, slept = []\<rparr> of
                (out_rows, w) \<Rightarrow>
                  (case write_results_csv openai_fieldnames out_rows of
                     None \<Rightarrow> Uncaught ''ValueError''
                   | Some bytes \<Rightarrow> Saved (arg_output a) bytes))))"

section \<open>Notions of the statements\<close>

text \<open>
  An attempt fails with a rate-limit-like error: the call raises, and the lowered message
  holds one of the indicators of line 68 of the Gemini script.
\<close>

definition rate_limit_failure :: "'r outcome \<Rightarrow> bool" where
  "rate_limit_failure out =
     (case out of Raises e \<Rightarrow> rate_limited (lower (message e)) | Returns _ \<Rightarrow> False)"


text \<open>
  The text of a column as the specification sees it: empty when the column is missing or
  holds \<open>None\<close>.
\<close>

definition column_text :: "input_row \<Rightarrow> string \<Rightarrow> string" where
  "column_text row k = (case row k of Some (Some s) \<Rightarrow> s | _ \<Rightarrow> [])"

definition prompt_columns :: "string list" where
  "prompt_columns = [''prompt_1'', ''prompt_2'', ''prompt_3'']"

text \<open>
  Whitespace at the ends of a string, as the specification speaks of it: a string starts
  (ends) with whitespace when one of the whitespace characters is a prefix (suffix) of it,
  and it is whitespace only when it is a sequence of whitespace characters. The empty
  string is whitespace only.
\<close>

definition starts_with_space :: "string \<Rightarrow> bool" where
  "starts_with_space s = list_ex (\<lambda>w. prefix w s) whitespace"

definition ends_with_space :: "string \<Rightarrow> bool" where
  "ends_with_space s = list_ex (\<lambda>w. suffix w s) whitespace"

definition whitespace_only :: "string \<Rightarrow> bool" where
  "whitespace_only s = (\<exists>ws. set ws \<subseteq> set whitespace \<and> s = concat ws)"

text \<open>No pattern of the list is empty or a proper prefix of another one.\<close>

definition prefix_free :: "string list \<Rightarrow> bool" where
  "prefix_free pats =
     list_all (\<lambda>w. w \<noteq> [] \<and> list_all (\<lambda>w'. prefix w w' \<longrightarrow> w = w') pats) pats"

text \<open>
  What identifies a record: the row it comes from, the position of its prompt and the
  prompt.
\<close>

definition record_key :: "out_row \<Rightarrow> pyval option \<times> pyval option \<times> pyval option" where
  "record_key r = (map_of r ''row_index'', map_of r ''prompt_id'', map_of r ''prompt_text'')"

definition prompt_key :: "nat \<Rightarrow> nat \<times> string \<Rightarrow> pyval option \<times> pyval option \<times> pyval option" where
  "prompt_key visual_idx jp =
     (Some (PStr (str_nat visual_idx)), Some (PStr (''p'' @ str_nat (fst jp))), Some (PStr (snd jp)))"

text \<open>The calls of a run in call order: row by row, prompt by prompt.\<close>

definition call_order ::
  "(nat \<times> input_row) list \<Rightarrow> (pyval option \<times> pyval option \<times> pyval option) list"
where
  "call_order selected =
     concat (map (\<lambda>(visual_idx, row).
                    map (prompt_key visual_idx) (List.enumerate 1 (ensure_prompts row))) selected)"

text \<open>The identifier and the text of the prompt of a record.\<close>

definition prompt_of :: "out_row \<Rightarrow> pyval option \<times> pyval option" where
  "prompt_of r = (map_of r ''prompt_id'', map_of r ''prompt_text'')"

definition numbered :: "nat \<times> string \<Rightarrow> pyval option \<times> pyval option" where
  "numbered jp = (Some (PStr (''p'' @ str_nat (fst jp))), Some (PStr (snd jp)))"

section \<open>Sample runs\<close>

text \<open>A starting state, a source of randomness and a clock.\<close>

definition world0 :: world where
  "world0 = \<lparr>calls = 0, slept = []\<rparr>"

definition no_jitter :: "nat \<Rightarrow> real" where
  "no_jitter n = 0"

definition sample_clock :: "nat \<Rightarrow> string" where
  "sample_clock n = ''2025-01-01T00:00:00+00:00''"

text \<open>Providers that are always rate limited, and providers that answer at the third call.\<close>

definition gemini_always_rate_limited :: gemini_api where
  "gemini_always_rate_limited n model full =
     Raises (Failure ''ResourceExhausted'' ''429 Resource exhausted: quota'')"

definition always_rate_limited :: openai_api where
  "always_rate_limited n model system prompt max_tokens =
     Raises (Failure ''RateLimitError'' ''Error code: 429 - Rate limit reached'')"

definition gemini_third_time_lucky :: gemini_api where
  "gemini_third_time_lucky n model full =
     (if n < 2 then Raises (Failure ''ResourceExhausted'' ''429 Resource exhausted: quota'')
      else Returns \<lparr>resp_text = Some '' Buddhismen er en religion. '', resp_candidates = []\<rparr>)"

definition openai_third_time_lucky :: openai_api where
  "openai_third_time_lucky n model system prompt max_tokens =
     (if n < 2 then Raises (Failure ''RateLimitError'' ''Error code: 429 - Rate limit reached'')
      else Returns \<lparr>choices = [Some '' Buddhismen er en religion. ''],
                    resp_usage = Some \<lparr>usage_prompt_tokens = 40, usage_completion_tokens = 7,
                                       usage_total_tokens = 47\<rparr>\<rparr>)"

text \<open>Providers that reject the request.\<close>

definition gemini_invalid_argument :: gemini_api where
  "gemini_invalid_argument n model full =
     Raises (Failure ''InvalidArgument'' ''400 API key not valid'')"

definition openai_always_fails :: openai_api where
  "openai_always_fails n model system prompt max_tokens =
     Raises (Failure ''BadRequestError'' ''Error code: 400 - invalid model'')"

definition openai_fails_once :: openai_api where
  "openai_fails_once n model system prompt max_tokens =
     (if n = 0 then Raises (Failure ''BadRequestError'' ''Error code: 400 - invalid model'')
      else Returns \<lparr>choices = [Some ''Svar''], resp_usage = None\<rparr>)"






text \<open>
  A row whose first prompt has a tabulator and a blank before it and blanks, a no-break
  space and a line feed after it, whose second prompt is an em space, a blank and a line
  end, and whose third prompt is \<open>None\<close>.
\<close>

definition padded_row :: input_row where
  "padded_row =
     [''prompt_1'' \<mapsto> Some ([CHR 0x09] @ '' Hva er buddhisme?  '' @ [CHR 0xC2, CHR 0xA0, CHR 0x0A]),
      ''prompt_2'' \<mapsto> Some ([CHR 0xE2, CHR 0x80, CHR 0x83] @ '' '' @ [CHR 0x0D, CHR 0x0A]),
      ''prompt_3'' \<mapsto> None]"

text \<open>A row whose first prompt is blank, a command line, and two environments.\<close>

definition blank_first :: input_row where
  "blank_first =
     [''name'' \<mapsto> Some ''Buddhism'', ''prompt_1'' \<mapsto> Some ''  '',
      ''prompt_2'' \<mapsto> Some ''Hva er buddhisme?'', ''prompt_3'' \<mapsto> Some ''Hvem var Buddha?'']"

definition sample_args :: args where
  "sample_args =
     \<lparr>arg_input = ''in.csv'', arg_output = ''out.csv'', arg_model = ''m'',
      arg_rows = ''first'', arg_sleep = 1\<rparr>"

definition empty_env :: "string \<rightharpoonup> string" where
  "empty_env = Map.empty"

definition both_keys :: "string \<rightharpoonup> string" where
  "both_keys = [''GOOGLE_API_KEY'' \<mapsto> ''g-key'', ''OPENAI_API_KEY'' \<mapsto> ''o-key'']"

section \<open>Reading a result file back\<close>

text \<open>
  The scripts never read their output. To state the round trip, the \<open>csv.reader\<close> of the
  Python library (CPython 3.11) is modelled, with the delimiter \<open>;\<close>, the quote character
  \<open>"\<close>, \<open>QUOTE_ALL\<close>, the defaults \<open>doublequote=True\<close>, \<open>skipinitialspace=False\<close> and
  \<open>strict=False\<close>, and two parameters: the escape character (\<open>None\<close> when the reader is
  given none) and the field size limit (\<open>csv.field_size_limit()\<close>, 131072 by default). The
  file is opened with \<open>encoding="utf-8-sig"\<close> and \<open>newline=""\<close>.
\<close>

definition CR :: char where
  "CR = CHR 0x0D"

definition LF :: char where
  "LF = CHR 0x0A"

text \<open>
  The reader takes the text line by line. With \<open>newline=""\<close> a line ends after a line
  feed, after a carriage return that no line feed follows, and at the end of the text, and
  keeps its ending. The reader is given the characters of each line and then an
  end-of-line mark, \<open>None\<close> here.
\<close>

fun symbols :: "string \<Rightarrow> char option list" where
  "symbols [] = []"
| "symbols [c] = [Some c, None]"
| "symbols (c # d # cs) =
     (if c = LF \<or> (c = CR \<and> d \<noteq> LF) then Some c # None # symbols (d # cs)
      else Some c # symbols (d # cs))"

datatype parser_state =
  START_RECORD | START_FIELD | ESCAPED_CHAR | IN_FIELD | IN_QUOTED_FIELD |
  ESCAPE_IN_QUOTED_FIELD | QUOTE_IN_QUOTED_FIELD | EAT_CRNL | AFTER_ESCAPED_CRNL

text \<open>
  The state of the reader inside a record: the parser state, the field being read and the
  fields of the record read so far.
\<close>

record reader =
  rd_state :: parser_state
  rd_field :: string
  rd_fields :: "string list"

definition parse_reset :: reader where
  "parse_reset = \<lparr>rd_state = START_RECORD, rd_field = [], rd_fields = []\<rparr>"

text \<open>
  The field size limit counts characters. In UTF-8 the characters of a text are its bytes
  that are not continuation bytes (\<open>0x80\<close> to \<open>0xBF\<close>).
\<close>

definition continuation :: "char \<Rightarrow> bool" where
  "continuation c = (128 \<le> (of_char c :: nat) \<and> (of_char c :: nat) < 192)"

definition codepoints :: "string \<Rightarrow> nat" where
  "codepoints s = length (filter (\<lambda>c. \<not> continuation c) s)"

text \<open>
  \<open>parse_add_char\<close>: \<open>None\<close> is the error \<open>field larger than field limit\<close>, raised when a
  character is added to a field that has \<open>limit\<close> characters already.
\<close>

definition parse_add_char :: "nat \<Rightarrow> reader \<Rightarrow> char \<Rightarrow> reader option" where
  "parse_add_char limit r c =
     (if \<not> continuation c \<and> limit \<le> codepoints (rd_field r) then None
      else Some (r\<lparr>rd_field := rd_field r @ [c]\<rparr>))"

definition parse_save_field :: "reader \<Rightarrow> reader" where
  "parse_save_field r = r\<lparr>rd_fields := rd_fields r @ [rd_field r], rd_field := []\<rparr>"

definition newline :: "char \<Rightarrow> bool" where
  "newline c = (c = LF \<or> c = CR)"

definition add_then :: "parser_state \<Rightarrow> nat \<Rightarrow> reader \<Rightarrow> char \<Rightarrow> reader option" where
  "add_then s limit r c = map_option (\<lambda>r'. r'\<lparr>rd_state := s\<rparr>) (parse_add_char limit r c)"

text \<open>The case \<open>START_FIELD\<close> of \<open>parse_process_char\<close>.\<close>

definition start_field :: "char option \<Rightarrow> nat \<Rightarrow> reader \<Rightarrow> char option \<Rightarrow> reader option" where
  "start_field esc limit r mark =
     (case mark of
        None \<Rightarrow> Some ((parse_save_field r)\<lparr>rd_state := START_RECORD\<rparr>)
      | Some c \<Rightarrow>
          if newline c then Some ((parse_save_field r)\<lparr>rd_state := EAT_CRNL\<rparr>)
          else if c = quotechar then Some (r\<lparr>rd_state := IN_QUOTED_FIELD\<rparr>)
          else if Some c = esc then Some (r\<lparr>rd_state := ESCAPED_CHAR\<rparr>)
          else if c = CSV_OUT_DELIMITER then Some (parse_save_field r)
          else add_then IN_FIELD limit r c)"

text \<open>The case \<open>IN_FIELD\<close>.\<close>

definition in_field :: "char option \<Rightarrow> nat \<Rightarrow> reader \<Rightarrow> char option \<Rightarrow> reader option" where
  "in_field esc limit r mark =
     (case mark of
        None \<Rightarrow> Some ((parse_save_field r)\<lparr>rd_state := START_RECORD\<rparr>)
      | Some c \<Rightarrow>
          if newline c then Some ((parse_save_field r)\<lparr>rd_state := EAT_CRNL\<rparr>)
          else if Some c = esc then Some (r\<lparr>rd_state := ESCAPED_CHAR\<rparr>)
          else if c = CSV_OUT_DELIMITER then Some ((parse_save_field r)\<lparr>rd_state := START_FIELD\<rparr>)
          else parse_add_char limit r c)"

text \<open>
  \<open>parse_process_char\<close>, state by state. \<open>START_RECORD\<close> falls through to \<open>START_FIELD\<close>,
  \<open>AFTER_ESCAPED_CRNL\<close> to \<open>IN_FIELD\<close>. \<open>None\<close> as a result is a raised \<open>csv.Error\<close>.
\<close>

definition parse_process_char ::
  "char option \<Rightarrow> nat \<Rightarrow> reader \<Rightarrow> char option \<Rightarrow> reader option"
where
  "parse_process_char esc limit r mark =
     (case rd_state r of
        START_RECORD \<Rightarrow>
          (case mark of
             None \<Rightarrow> Some r
           | Some c \<Rightarrow>
               if newline c then Some (r\<lparr>rd_state := EAT_CRNL\<rparr>)
               else start_field esc limit (r\<lparr>rd_state := START_FIELD\<rparr>) mark)
      | START_FIELD \<Rightarrow> start_field esc limit r mark
      | ESCAPED_CHAR \<Rightarrow>
          (case mark of
             None \<Rightarrow> add_then IN_FIELD limit r LF
           | Some c \<Rightarrow>
               if newline c then add_then AFTER_ESCAPED_CRNL limit r c
               else add_then IN_FIELD limit r c)
      | AFTER_ESCAPED_CRNL \<Rightarrow>
          (case mark of None \<Rightarrow> Some r | Some c \<Rightarrow> in_field esc limit r mark)
      | IN_FIELD \<Rightarrow> in_field esc limit r mark
      | IN_QUOTED_FIELD \<Rightarrow>
          (case mark of
             None \<Rightarrow> Some r
           | Some c \<Rightarrow>
               if Some c = esc then Some (r\<lparr>rd_state := ESCAPE_IN_QUOTED_FIELD\<rparr>)
               else if c = quotechar then Some (r\<lparr>rd_state := QUOTE_IN_QUOTED_FIELD\<rparr>)
               else parse_add_char limit r c)
      | ESCAPE_IN_QUOTED_FIELD \<Rightarrow>
          add_then IN_QUOTED_FIELD limit r (case mark of None \<Rightarrow> LF | Some c \<Rightarrow> c)
      | QUOTE_IN_QUOTED_FIELD \<Rightarrow>
          (case mark of
             None \<Rightarrow> Some ((parse_save_field r)\<lparr>rd_state := START_RECORD\<rparr>)
           | Some c \<Rightarrow>
               if c = quotechar then add_then IN_QUOTED_FIELD limit r c
               else if c = CSV_OUT_DELIMITER then
                 Some ((parse_save_field r)\<lparr>rd_state := START_FIELD\<rparr>)
               else if newline c then Some ((parse_save_field r)\<lparr>rd_state := EAT_CRNL\<rparr>)
               else add_then IN_FIELD limit r c)
      | EAT_CRNL \<Rightarrow>
          (case mark of
             None \<Rightarrow> Some (r\<lparr>rd_state := START_RECORD\<rparr>)
           | Some c \<Rightarrow> if newline c then Some r else None))"

text \<open>
  The iteration of the reader. After the end-of-line mark of a line, a parser back in
  \<open>START_RECORD\<close> has finished a record, and the next record starts from \<open>parse_reset\<close>.
  At the end of the text, a field that has characters or is still inside quotes ends an
  unfinished record; otherwise what was read of an unfinished record is dropped.
\<close>

fun read_records ::
  "char option \<Rightarrow> nat \<Rightarrow> reader \<Rightarrow> char option list \<Rightarrow> string list list option"
where
  "read_records esc limit r [] =
     Some (if rd_field r \<noteq> [] \<or> rd_state r = IN_QUOTED_FIELD
           then [rd_fields r @ [rd_field r]] else [])"
| "read_records esc limit r (mark # marks) =
     (case parse_process_char esc limit r mark of
        None \<Rightarrow> None
      | Some r' \<Rightarrow>
          if mark = None \<and> rd_state r' = START_RECORD then
            map_option (Cons (rd_fields r')) (read_records esc limit parse_reset marks)
          else read_records esc limit r' marks)"

text \<open>Decoding with \<open>utf-8-sig\<close> drops a byte-order mark at the start.\<close>

definition decode_utf8_sig :: "string \<Rightarrow> string" where
  "decode_utf8_sig bytes = (if prefix BOM bytes then drop (length BOM) bytes else bytes)"

text \<open>
  All records of a file, the header line first: \<open>list(csv.reader(f, delimiter=";",
  quoting=csv.QUOTE_ALL))\<close>, with \<open>escapechar\<close> when \<open>esc\<close> is not \<open>None\<close>.
\<close>

definition reparse :: "char option \<Rightarrow> nat \<Rightarrow> string \<Rightarrow> string list list option" where
  "reparse esc limit bytes = read_records esc limit parse_reset (symbols (decode_utf8_sig bytes))"

text \<open>The texts of the fields of a result row, in the order of the field names.\<close>

definition row_texts :: "string list \<Rightarrow> out_row \<Rightarrow> string list" where
  "row_texts fieldnames row =
     map (\<lambda>k. case map_of row k of None \<Rightarrow> [] | Some v \<Rightarrow> field_text v) fieldnames"

definition field_size_limit :: nat where
  "field_size_limit = 131072"

text \<open>The reader inside a quoted field \<open>f\<close>, after the fields \<open>fs\<close> of the record.\<close>

definition in_quotes :: "string \<Rightarrow> string list \<Rightarrow> reader" where
  "in_quotes f fs = \<lparr>rd_state = IN_QUOTED_FIELD, rd_field = f, rd_fields = fs\<rparr>"

text \<open>
  What a reader makes of a field that the writer has written: the field itself when the
  reader knows the escape character of the writer, and the field with every escape
  character doubled when the reader has no escape character.
\<close>

definition read_back :: "char option \<Rightarrow> string \<Rightarrow> string" where
  "read_back esc s =
     (if esc = None then concat (map (\<lambda>c. if c = escapechar then [c, c] else [c]) s) else s)"

text \<open>A written row after the quote character that opens its first field.\<close>

fun row_tail :: "string list \<Rightarrow> string \<Rightarrow> string" where
  "row_tail [] rest = rest"
| "row_tail [v] rest = concat (map escape_char v) @ quotechar # CR # LF # rest"
| "row_tail (v # v' # vs) rest =
     concat (map escape_char v) @ quotechar # CSV_OUT_DELIMITER # quotechar # row_tail (v' # vs) rest"
definition backslash_row :: out_row where
  "backslash_row =
     gemini_out_row ''2025-01-01T00:00:00+00:00'' ''gemini-2.5-flash'' 2 blank_first 1
       ''Hva er buddhisme?'' \<lparr>response_text = [CHR 0x5C], error = []\<rparr>"

definition tricky_row :: out_row where
  "tricky_row =
     gemini_out_row ''2025-01-01T00:00:00+00:00'' ''gemini-2.5-flash'' 2 blank_first 1
       ''Hva er buddhisme?''
       \<lparr>response_text =
          [CHR ''a'', CHR '';'', CHR 0x22, CHR ''b'', CHR 0x22, CHR 0x0D, CHR 0x0A, CHR 0x5C, CHR ''n''],
        error = []\<rparr>"


section \<open>The retry loops\<close>

text \<open>
  As long as attempts are left, a rate-limited failure of the Gemini call leads to the next
  attempt, one invocation later.
\<close>

lemma gemini_loop_skip:
  "n \<le> k \<Longrightarrow> \<forall>i<n. rate_limit_failure (api (calls w + i) model_name full) \<Longrightarrow>
   \<exists>w'. calls w' = calls w + n \<and>
     gemini_loop api uniform full model_name k attempt w =
     gemini_loop api uniform full model_name (k - n) (attempt + n) w'"
proof (induction n arbitrary: k attempt w)
  case 0
  then show ?case by auto
next
  case (Suc n)
  then obtain k' where k: "k = Suc k'" and le: "n \<le> k'"
    by (cases k) auto
  from Suc.prems(2) have "rate_limit_failure (api (calls w) model_name full)"
    by (metis add.right_neutral zero_less_Suc)
  then obtain e where e: "api (calls w) model_name full = Raises e"
    and rl: "rate_limited (lower (message e))"
    by (auto simp: rate_limit_failure_def split: outcome.splits)
  define w2 where
    "w2 = w\<lparr>calls := calls w + 1, slept := slept w @ [min (2 ^ attempt + uniform (calls w)) 30]\<rparr>"
  have step: "gemini_loop api uniform full model_name k attempt w =
              gemini_loop api uniform full model_name k' (attempt + 1) w2"
    using e rl by (simp add: k w2_def Let_def)
  have c2: "calls w2 = calls w + 1"
    by (simp add: w2_def)
  have "\<forall>i<n. rate_limit_failure (api (calls w2 + i) model_name full)"
    using Suc.prems(2) c2 by (metis Suc_eq_plus1 add_Suc_shift Suc_less_eq)
  from Suc.IH [OF le this, of "attempt + 1"]
  obtain w' where "calls w' = calls w2 + n"
    and "gemini_loop api uniform full model_name k' (attempt + 1) w2 =
         gemini_loop api uniform full model_name (k' - n) (attempt + 1 + n) w'"
    by blast
  with step c2 k show ?case
    by (intro exI [of _ w']) simp
qed

text \<open>
  The OpenAI loop goes on after every failure, and remembers the last one.
\<close>

lemma openai_loop_skip:
  "n \<le> k \<Longrightarrow>
   \<forall>i<n. \<exists>e. openai_try (api (calls w + i) model SYSTEM_NO prompt MAX_TOKENS) = Raises e \<Longrightarrow>
   \<exists>w' last'. calls w' = calls w + n \<and>
     openai_loop api model prompt k attempt last_err w =
     openai_loop api model prompt (k - n) (attempt + n) last' w' \<and>
     (case n of 0 \<Rightarrow> last' = last_err
      | Suc m \<Rightarrow> \<exists>e. openai_try (api (calls w + m) model SYSTEM_NO prompt MAX_TOKENS) = Raises e \<and>
                     last' = type_name e @ '': '' @ message e)"
proof (induction n arbitrary: k attempt w last_err)
  case 0
  then show ?case by auto
next
  case (Suc n)
  then obtain k' where k: "k = Suc k'" and le: "n \<le> k'"
    by (cases k) auto
  from Suc.prems(2) obtain e where
    e: "openai_try (api (calls w) model SYSTEM_NO prompt MAX_TOKENS) = Raises e"
    by (metis add.right_neutral zero_less_Suc)
  define w2 where
    "w2 = w\<lparr>calls := calls w + 1, slept := slept w @ [RETRY_BACKOFF ^ (attempt - 1)]\<rparr>"
  define l2 where "l2 = type_name e @ '': '' @ message e"
  have step: "openai_loop api model prompt k attempt last_err w =
              openai_loop api model prompt k' (attempt + 1) l2 w2"
    using e by (simp add: k w2_def l2_def Let_def)
  have c2: "calls w2 = calls w + 1"
    by (simp add: w2_def)
  have "\<forall>i<n. \<exists>e. openai_try (api (calls w2 + i) model SYSTEM_NO prompt MAX_TOKENS) = Raises e"
    using Suc.prems(2) c2 by (metis Suc_eq_plus1 add_Suc_shift Suc_less_eq)
  from Suc.IH [OF le this, of "attempt + 1" l2]
  obtain w' last' where w': "calls w' = calls w2 + n"
    and eq: "openai_loop api model prompt k' (attempt + 1) l2 w2 =
         openai_loop api model prompt (k' - n) (attempt + 1 + n) last' w'"
    and last: "(case n of 0 \<Rightarrow> last' = l2
      | Suc m \<Rightarrow> \<exists>e. openai_try (api (calls w2 + m) model SYSTEM_NO prompt MAX_TOKENS) = Raises e \<and>
                     last' = type_name e @ '': '' @ message e)"
    by blast
  have "\<exists>e. openai_try (api (calls w + n) model SYSTEM_NO prompt MAX_TOKENS) = Raises e \<and>
             last' = type_name e @ '': '' @ message e"
    using last e c2 by (cases n) (auto simp: l2_def)
  with step c2 k w' eq show ?case
    by (intro exI [of _ w'] exI [of _ last']) simp
qed


lemma gemini_result_error: "error (gemini_result resp) = []"
  by (simp add: gemini_result_def Let_def split: list.splits)

lemma openai_try_error: "openai_try out = Returns res \<Longrightarrow> error res = []"
  by (auto simp: openai_try_def Let_def split: outcome.splits list.splits)

text \<open>What the Gemini controller does at its (n+1)-th attempt, after n rate-limited ones.\<close>

lemma gemini_after_failures:
  assumes "n < MAX_RETRIES"
    and "\<forall>i<n. rate_limit_failure (api (calls w + i) model (full_prompt prompt))"
  shows "\<exists>w1. calls w1 = calls w + n \<and>
           call_gemini_safe api uniform prompt model w =
           gemini_loop api uniform (full_prompt prompt) model (Suc (MAX_RETRIES - Suc n)) n w1"
proof -
  from assms(1) have le: "n \<le> MAX_RETRIES"
    by simp
  from gemini_loop_skip [where n = n and k = MAX_RETRIES and api = api and w = w
      and model_name = model and full = "full_prompt prompt" and uniform = uniform and attempt = 0,
      OF le assms(2)]
  obtain w1 where "calls w1 = calls w + n"
    and "gemini_loop api uniform (full_prompt prompt) model MAX_RETRIES 0 w =
         gemini_loop api uniform (full_prompt prompt) model (MAX_RETRIES - n) (0 + n) w1"
    by blast
  moreover from assms(1) have "MAX_RETRIES - n = Suc (MAX_RETRIES - Suc n)"
    by simp
  ultimately show ?thesis
    by (auto simp: call_gemini_safe_def)
qed

lemma openai_after_failures:
  assumes "n < RETRIES"
    and "\<forall>i<n. \<exists>e. openai_try (api (calls w + i) model SYSTEM_NO prompt MAX_TOKENS) = Raises e"
  shows "\<exists>w1 last. calls w1 = calls w + n \<and>
           call_openai_chat_with_retries api model prompt w =
           openai_loop api model prompt (Suc (RETRIES - Suc n)) (1 + n) last w1"
proof -
  from assms(1) have le: "n \<le> RETRIES"
    by simp
  from openai_loop_skip [where n = n and k = RETRIES and api = api and w = w
      and model = model and prompt = prompt and attempt = 1 and last_err = "[]", OF le assms(2)]
  obtain w1 last where "calls w1 = calls w + n"
    and "openai_loop api model prompt RETRIES 1 [] w =
         openai_loop api model prompt (RETRIES - n) (1 + n) last w1"
    by blast
  moreover from assms(1) have "RETRIES - n = Suc (RETRIES - Suc n)"
    by simp
  ultimately show ?thesis
    by (auto simp: call_openai_chat_with_retries_def)
qed

lemma rate_limit_failure_openai_try:
  "rate_limit_failure out \<Longrightarrow> \<exists>e. openai_try out = Raises e"
  by (auto simp: rate_limit_failure_def openai_try_def split: outcome.splits)



lemma strip_Nil: "strip [] = []"
  by code_simp

lemma kept_prompt:
  "(case row_get row k of
      None \<Rightarrow> None
    | Some s \<Rightarrow> if s \<noteq> [] \<and> strip s \<noteq> [] then Some (strip s) else None) =
   (if strip (column_text row k) \<noteq> [] then Some (strip (column_text row k)) else None)"
  by (auto simp: row_get_def column_text_def strip_Nil split: option.splits)

lemma ensure_prompts_filter:
  "ensure_prompts row =
     filter (\<lambda>t. t \<noteq> []) (map (\<lambda>k. strip (column_text row k)) prompt_columns)"
  by (simp add: ensure_prompts_def prompt_columns_def kept_prompt List.map_filter_simps)

lemma record_key_gemini:
  "record_key (gemini_out_row now model visual_idx row j p res) = prompt_key visual_idx (j, p)"
  by (simp add: record_key_def gemini_out_row_def prompt_key_def)

lemma record_key_openai:
  "record_key (openai_out_row now model visual_idx row j p resp) = prompt_key visual_idx (j, p)"
  by (simp add: record_key_def openai_out_row_def prompt_key_def)

lemma gemini_prompts_loop_appends:
  "\<exists>new w'. gemini_prompts_loop api uniform clock a visual_idx row jps out_rows w =
              (out_rows @ new, w') \<and>
            map record_key new = map (prompt_key visual_idx) jps"
proof (induction jps arbitrary: out_rows w)
  case Nil
  then show ?case by simp
next
  case (Cons jp jps)
  obtain j p where jp: "jp = (j, p)"
    by (cases jp)
  obtain res w1 where call: "call_gemini_safe api uniform p (arg_model a) w = (res, w1)"
    by (cases "call_gemini_safe api uniform p (arg_model a) w")
  define r where "r = gemini_out_row (clock (calls w1)) (arg_model a) visual_idx row j p res"
  from Cons.IH [of "out_rows @ [r]" "w1\<lparr>slept := slept w1 @ [arg_sleep a]\<rparr>"]
  obtain new w' where
    "gemini_prompts_loop api uniform clock a visual_idx row jps (out_rows @ [r])
       (w1\<lparr>slept := slept w1 @ [arg_sleep a]\<rparr>) = ((out_rows @ [r]) @ new, w')"
    and "map record_key new = map (prompt_key visual_idx) jps"
    by blast
  then show ?case
    by (intro exI [of _ "r # new"] exI [of _ w'])
      (simp add: jp call r_def record_key_gemini)
qed

lemma openai_prompts_loop_appends:
  "\<exists>new w'. openai_prompts_loop api clock a visual_idx row jps out_rows w =
              (out_rows @ new, w') \<and>
            map record_key new = map (prompt_key visual_idx) jps"
proof (induction jps arbitrary: out_rows w)
  case Nil
  then show ?case by simp
next
  case (Cons jp jps)
  obtain j p where jp: "jp = (j, p)"
    by (cases jp)
  obtain resp w1 where call: "call_openai_chat_with_retries api (arg_model a) p w = (resp, w1)"
    by (cases "call_openai_chat_with_retries api (arg_model a) p w")
  define r where "r = openai_out_row (clock (calls w1)) (arg_model a) visual_idx row j p resp"
  from Cons.IH [of "out_rows @ [r]" "w1\<lparr>slept := slept w1 @ [arg_sleep a]\<rparr>"]
  obtain new w' where
    "openai_prompts_loop api clock a visual_idx row jps (out_rows @ [r])
       (w1\<lparr>slept := slept w1 @ [arg_sleep a]\<rparr>) = ((out_rows @ [r]) @ new, w')"
    and "map record_key new = map (prompt_key visual_idx) jps"
    by blast
  then show ?case
    by (intro exI [of _ "r # new"] exI [of _ w'])
      (simp add: jp call r_def record_key_openai)
qed

lemma gemini_rows_loop_appends:
  "\<exists>new w'. gemini_rows_loop api uniform clock a selected out_rows w = (out_rows @ new, w') \<and>
            map record_key new = call_order selected"
proof (induction selected arbitrary: out_rows w)
  case Nil
  then show ?case by (simp add: call_order_def)
next
  case (Cons s selected)
  obtain visual_idx row where s: "s = (visual_idx, row)"
    by (cases s)
  show ?case
  proof (cases "ensure_prompts row = []")
    case True
    with Cons.IH [of out_rows w] show ?thesis
      by (simp add: s call_order_def)
  next
    case False
    from gemini_prompts_loop_appends
    obtain new1 w1 where
      one: "gemini_prompts_loop api uniform clock a visual_idx row
              (List.enumerate 1 (ensure_prompts row)) out_rows w = (out_rows @ new1, w1)"
      and k1: "map record_key new1 =
               map (prompt_key visual_idx) (List.enumerate 1 (ensure_prompts row))"
      by blast
    from Cons.IH [of "out_rows @ new1" w1]
    obtain new2 w2 where
      "gemini_rows_loop api uniform clock a selected (out_rows @ new1) w1 =
         ((out_rows @ new1) @ new2, w2)"
      and "map record_key new2 = call_order selected"
      by blast
    with one k1 False show ?thesis
      by (intro exI [of _ "new1 @ new2"] exI [of _ w2]) (simp add: s call_order_def)
  qed
qed

lemma openai_rows_loop_appends:
  "\<exists>new w'. openai_rows_loop api clock a selected out_rows w = (out_rows @ new, w') \<and>
            map record_key new = call_order selected"
proof (induction selected arbitrary: out_rows w)
  case Nil
  then show ?case by (simp add: call_order_def)
next
  case (Cons s selected)
  obtain visual_idx row where s: "s = (visual_idx, row)"
    by (cases s)
  show ?case
  proof (cases "ensure_prompts row = []")
    case True
    with Cons.IH [of out_rows w] show ?thesis
      by (simp add: s call_order_def)
  next
    case False
    from openai_prompts_loop_appends
    obtain new1 w1 where
      one: "openai_prompts_loop api clock a visual_idx row
              (List.enumerate 1 (ensure_prompts row)) out_rows w = (out_rows @ new1, w1)"
      and k1: "map record_key new1 =
               map (prompt_key visual_idx) (List.enumerate 1 (ensure_prompts row))"
      by blast
    from Cons.IH [of "out_rows @ new1" w1]
    obtain new2 w2 where
      "openai_rows_loop api clock a selected (out_rows @ new1) w1 =
         ((out_rows @ new1) @ new2, w2)"
      and "map record_key new2 = call_order selected"
      by blast
    with one k1 False show ?thesis
      by (intro exI [of _ "new1 @ new2"] exI [of _ w2]) (simp add: s call_order_def)
  qed
qed

lemma length_call_order:
  "length (call_order selected) =
   sum_list (map (\<lambda>(visual_idx, row). length (ensure_prompts row)) selected)"
  by (induction selected) (auto simp: call_order_def)

lemma prompt_of_record_key: "prompt_of r = snd (record_key r)"
  by (simp add: prompt_of_def record_key_def)

lemma numbered_prompt_key: "numbered jp = snd (prompt_key visual_idx jp)"
  by (simp add: numbered_def prompt_key_def)

lemma prompt_of_keys:
  assumes "map record_key new = map (prompt_key visual_idx) jps"
  shows "map prompt_of new = map numbered jps"
proof -
  have "map prompt_of new = map snd (map record_key new)"
    by (simp add: prompt_of_record_key)
  also have "\<dots> = map snd (map (prompt_key visual_idx) jps)"
    by (simp only: assms)
  also have "\<dots> = map numbered jps"
    by (simp add: numbered_prompt_key [of _ visual_idx])
  finally show ?thesis .
qed

section \<open>The reader on written rows\<close>

lemma symbols_cons:
  "X \<noteq> [] \<Longrightarrow>
   symbols (c # X) =
     (if c = LF \<or> (c = CR \<and> hd X \<noteq> LF) then Some c # None # symbols X else Some c # symbols X)"
  by (cases X) simp_all

lemma symbols_plain:
  "X \<noteq> [] \<Longrightarrow> c \<noteq> LF \<Longrightarrow> c \<noteq> CR \<Longrightarrow> symbols (c # X) = Some c # symbols X"
  by (simp add: symbols_cons)

lemma symbols_LF: "symbols (LF # X) = Some LF # None # symbols X"
  by (cases X) simp_all

lemma special_chars:
  "quotechar \<noteq> LF" "quotechar \<noteq> CR" "quotechar \<noteq> escapechar" "quotechar \<noteq> CSV_OUT_DELIMITER"
  "escapechar \<noteq> LF" "escapechar \<noteq> CR" "CSV_OUT_DELIMITER \<noteq> LF" "CSV_OUT_DELIMITER \<noteq> CR"
  "CR \<noteq> LF" "\<not> continuation quotechar" "\<not> continuation escapechar"
  "\<not> newline quotechar" "\<not> newline CSV_OUT_DELIMITER" "newline CR" "newline LF"
  by (simp_all add: quotechar_def LF_def CR_def escapechar_def CSV_OUT_DELIMITER_def
      continuation_def newline_def)

lemma in_quotes_None:
  "read_records esc limit (in_quotes f fs) (None # ms) = read_records esc limit (in_quotes f fs) ms"
  by (simp add: in_quotes_def parse_process_char_def)

lemma in_quotes_char:
  "c \<noteq> quotechar \<Longrightarrow> Some c \<noteq> esc \<Longrightarrow> continuation c \<or> codepoints f < limit \<Longrightarrow>
   read_records esc limit (in_quotes f fs) (Some c # ms) =
   read_records esc limit (in_quotes (f @ [c]) fs) ms"
  by (auto simp: in_quotes_def parse_process_char_def parse_add_char_def)

lemma in_quotes_quote_quote:
  "Some quotechar \<noteq> esc \<Longrightarrow> codepoints f < limit \<Longrightarrow>
   read_records esc limit (in_quotes f fs) (Some quotechar # Some quotechar # ms) =
   read_records esc limit (in_quotes (f @ [quotechar]) fs) ms"
  by (auto simp: in_quotes_def parse_process_char_def parse_add_char_def add_then_def)

lemma in_quotes_escaped:
  "continuation c \<or> codepoints f < limit \<Longrightarrow>
   read_records (Some e) limit (in_quotes f fs) (Some e # Some c # ms) =
   read_records (Some e) limit (in_quotes (f @ [c]) fs) ms"
  by (auto simp: in_quotes_def parse_process_char_def parse_add_char_def add_then_def)

lemma in_quotes_next_field:
  "Some quotechar \<noteq> esc \<Longrightarrow>
   read_records esc limit (in_quotes f fs)
     (Some quotechar # Some CSV_OUT_DELIMITER # Some quotechar # ms) =
   read_records esc limit (in_quotes [] (fs @ [f])) ms"
  by (simp add: in_quotes_def parse_process_char_def start_field_def parse_save_field_def
      quotechar_def CSV_OUT_DELIMITER_def CR_def LF_def newline_def)

lemma in_quotes_end_record:
  "Some quotechar \<noteq> esc \<Longrightarrow>
   read_records esc limit (in_quotes f fs) (Some quotechar # Some CR # Some LF # None # ms) =
   map_option (Cons (fs @ [f])) (read_records esc limit parse_reset ms)"
  by (simp add: in_quotes_def parse_process_char_def parse_save_field_def
      quotechar_def CSV_OUT_DELIMITER_def CR_def LF_def newline_def)

lemma reset_quote:
  "read_records esc limit parse_reset (Some quotechar # ms) =
   read_records esc limit (in_quotes [] []) ms"
  by (simp add: in_quotes_def parse_reset_def parse_process_char_def start_field_def
      quotechar_def CSV_OUT_DELIMITER_def CR_def LF_def newline_def)

lemma codepoints_append [simp]: "codepoints (a @ b) = codepoints a + codepoints b"
  by (simp add: codepoints_def)

lemma codepoints_Nil [simp]: "codepoints [] = 0"
  by (simp add: codepoints_def)

lemma codepoints_Cons: "codepoints (c # s) = (if continuation c then 0 else 1) + codepoints s"
  by (simp add: codepoints_def)

text \<open>
  The reader on the written characters of a field, up to the quote character that closes
  it.
\<close>

lemma read_field_body:
  assumes esc: "esc = None \<or> esc = Some escapechar"
    and size: "codepoints (f @ read_back esc s) \<le> limit"
  shows "read_records esc limit (in_quotes f fs)
           (symbols (concat (map escape_char s) @ quotechar # Y)) =
         read_records esc limit (in_quotes (f @ read_back esc s) fs) (symbols (quotechar # Y))"
  using size
proof (induction s arbitrary: f)
  case Nil
  then show ?case by (simp add: read_back_def)
next
  case (Cons c s)
  let ?X = "concat (map escape_char s) @ quotechar # Y"
  have X: "?X \<noteq> []"
    by simp
  have q: "Some quotechar \<noteq> esc"
    using esc special_chars by auto
  consider (quote) "c = quotechar" | (escape) "c = escapechar"
    | (other) "c \<noteq> quotechar" "c \<noteq> escapechar"
    by blast
  then show ?case
  proof cases
    case quote
    then have rb: "read_back esc (c # s) = quotechar # read_back esc s"
      using special_chars by (auto simp: read_back_def)
    with Cons.prems have lt: "codepoints f < limit"
      and rest: "codepoints ((f @ [quotechar]) @ read_back esc s) \<le> limit"
      using special_chars by (simp_all add: codepoints_Cons)
    have "symbols (concat (map escape_char (c # s)) @ quotechar # Y) =
          Some quotechar # Some quotechar # symbols ?X"
      using quote special_chars by (simp add: escape_char_def symbols_plain)
    then show ?thesis
      using in_quotes_quote_quote [OF q lt] Cons.IH [OF rest] rb by simp
  next
    case escape
    show ?thesis
    proof (cases "esc = None")
      case True
      then have rb: "read_back esc (c # s) = escapechar # escapechar # read_back esc s"
        using escape by (simp add: read_back_def)
      with Cons.prems have lt: "codepoints f < limit" "codepoints (f @ [escapechar]) < limit"
        and rest: "codepoints ((f @ [escapechar, escapechar]) @ read_back esc s) \<le> limit"
        using special_chars by (simp_all add: codepoints_Cons)
      have "symbols (concat (map escape_char (c # s)) @ quotechar # Y) =
            Some escapechar # Some escapechar # symbols ?X"
        using escape special_chars by (simp add: escape_char_def symbols_plain)
      moreover have "read_records esc limit (in_quotes f fs)
            (Some escapechar # Some escapechar # symbols ?X) =
          read_records esc limit (in_quotes ((f @ [escapechar]) @ [escapechar]) fs) (symbols ?X)"
      proof -
        have neq: "escapechar \<noteq> quotechar" "Some escapechar \<noteq> esc"
          using True special_chars by auto
        have "read_records esc limit (in_quotes f fs)
                (Some escapechar # Some escapechar # symbols ?X) =
              read_records esc limit (in_quotes (f @ [escapechar]) fs)
                (Some escapechar # symbols ?X)"
          using lt(1) by (intro in_quotes_char neq) simp
        also have "\<dots> =
              read_records esc limit (in_quotes ((f @ [escapechar]) @ [escapechar]) fs) (symbols ?X)"
          using lt(2) by (intro in_quotes_char neq) simp
        finally show ?thesis .
      qed
      ultimately show ?thesis
        using Cons.IH [OF rest] rb by simp
    next
      case False
      with esc have e: "esc = Some escapechar"
        by simp
      then have rb: "read_back esc (c # s) = escapechar # read_back esc s"
        using escape by (simp add: read_back_def)
      with Cons.prems have lt: "codepoints f < limit"
        and rest: "codepoints ((f @ [escapechar]) @ read_back esc s) \<le> limit"
        using special_chars by (simp_all add: codepoints_Cons)
      have "symbols (concat (map escape_char (c # s)) @ quotechar # Y) =
            Some escapechar # Some escapechar # symbols ?X"
        using escape special_chars by (simp add: escape_char_def symbols_plain)
      then show ?thesis
        using in_quotes_escaped [of escapechar f limit] lt Cons.IH [OF rest] rb e by simp
    qed
  next
    case other
    then have rb: "read_back esc (c # s) = c # read_back esc s"
      by (simp add: read_back_def)
    with Cons.prems have ok: "continuation c \<or> codepoints f < limit"
      and rest: "codepoints ((f @ [c]) @ read_back esc s) \<le> limit"
      by (auto simp: codepoints_Cons split: if_splits)
    have ne: "Some c \<noteq> esc"
      using esc other by auto
    have step: "read_records esc limit (in_quotes f fs) (symbols (c # ?X)) =
          read_records esc limit (in_quotes (f @ [c]) fs) (symbols ?X)"
      using in_quotes_char [OF other(1) ne ok] in_quotes_None
      by (simp add: symbols_cons [OF X] del: symbols.simps)
    have "concat (map escape_char (c # s)) @ quotechar # Y = c # ?X"
      using other by (simp add: escape_char_def)
    then show ?thesis
      using step Cons.IH [OF rest] rb by simp
  qed
qed

lemma row_tail_nonempty: "cells \<noteq> [] \<Longrightarrow> row_tail cells rest \<noteq> []"
  by (induction cells rest rule: row_tail.induct) simp_all

lemma writerow_row_tail:
  "cells \<noteq> [] \<Longrightarrow> writerow cells @ rest = quotechar # row_tail cells rest"
proof (induction cells rest rule: row_tail.induct)
  case (1 rest)
  then show ?case by simp
next
  case (2 v rest)
  show ?case
    by (simp add: writerow_def quote_field_def lineterminator_def CR_def LF_def)
next
  case (3 v v' vs rest)
  then show ?case
    by (simp add: writerow_def quote_field_def)
qed

lemma symbols_end_record:
  "symbols (quotechar # CR # LF # rest) =
   Some quotechar # Some CR # Some LF # None # symbols rest"
  using special_chars by (simp add: symbols_LF del: symbols.simps add: symbols_cons)

lemma symbols_next_field:
  "Z \<noteq> [] \<Longrightarrow>
   symbols (quotechar # CSV_OUT_DELIMITER # quotechar # Z) =
   Some quotechar # Some CSV_OUT_DELIMITER # Some quotechar # symbols Z"
  using special_chars by (simp add: symbols_plain del: symbols.simps)

text \<open>The reader on a written row, after its first quote character.\<close>

lemma read_row_tail:
  assumes esc: "esc = None \<or> esc = Some escapechar"
    and "cells \<noteq> []"
    and "\<forall>v\<in>set cells. codepoints (read_back esc v) \<le> limit"
  shows "read_records esc limit (in_quotes [] fs) (symbols (row_tail cells rest)) =
         map_option (Cons (fs @ map (read_back esc) cells))
           (read_records esc limit parse_reset (symbols rest))"
  using assms(2,3)
proof (induction cells rest arbitrary: fs rule: row_tail.induct)
  case (1 rest)
  then show ?case by simp
next
  case (2 v rest)
  have q: "Some quotechar \<noteq> esc"
    using esc special_chars by auto
  from 2 have size: "codepoints ([] @ read_back esc v) \<le> limit"
    by simp
  show ?case
    using read_field_body [OF esc size, where fs = fs and Y = "CR # LF # rest"]
      in_quotes_end_record [OF q]
    by (simp add: symbols_end_record del: symbols.simps)
next
  case (3 v v' vs rest)
  have q: "Some quotechar \<noteq> esc"
    using esc special_chars by auto
  from 3 have size: "codepoints ([] @ read_back esc v) \<le> limit"
    and rest: "\<forall>v\<in>set (v' # vs). codepoints (read_back esc v) \<le> limit"
    by simp_all
  have ne: "row_tail (v' # vs) rest \<noteq> []"
    by (rule row_tail_nonempty) simp
  show ?case
    using read_field_body [OF esc size, where fs = fs
        and Y = "CSV_OUT_DELIMITER # quotechar # row_tail (v' # vs) rest"]
      in_quotes_next_field [OF q] "3.IH" [OF _ rest, where fs = "fs @ [read_back esc v]"]
    by (simp add: symbols_next_field [OF ne] del: symbols.simps)
qed

text \<open>The reader on a sequence of written rows.\<close>

lemma read_written_rows:
  assumes esc: "esc = None \<or> esc = Some escapechar"
    and "\<forall>vs\<in>set vss. vs \<noteq> [] \<and> (\<forall>v\<in>set vs. codepoints (read_back esc v) \<le> limit)"
  shows "read_records esc limit parse_reset (symbols (concat (map writerow vss))) =
         Some (map (map (read_back esc)) vss)"
  using assms(2)
proof (induction vss)
  case Nil
  then show ?case by (simp add: parse_reset_def)
next
  case (Cons vs vss)
  let ?rest = "concat (map writerow vss)"
  from Cons.prems have vs: "vs \<noteq> []" "\<forall>v\<in>set vs. codepoints (read_back esc v) \<le> limit"
    and more: "\<forall>vs\<in>set vss. vs \<noteq> [] \<and> (\<forall>v\<in>set vs. codepoints (read_back esc v) \<le> limit)"
    by simp_all
  have ne: "row_tail vs ?rest \<noteq> []"
    using vs(1) by (rule row_tail_nonempty)
  have "symbols (concat (map writerow (vs # vss))) = Some quotechar # symbols (row_tail vs ?rest)"
    using writerow_row_tail [OF vs(1), of ?rest] special_chars
    by (simp add: symbols_plain [OF ne] del: symbols.simps)
  then show ?case
    using reset_quote [of esc limit] read_row_tail [OF esc vs, where fs = "[]" and rest = ?rest]
      Cons.IH [OF more]
    by simp
qed

lemma dict_to_list_row_texts:
  "set (map fst row) \<subseteq> set fieldnames \<Longrightarrow>
   dict_to_list fieldnames row = Some (row_texts fieldnames row)"
  by (auto simp: dict_to_list_def row_texts_def list_ex_iff)

lemma writerows_text:
  "\<forall>r\<in>set rows. set (map fst r) \<subseteq> set fieldnames \<Longrightarrow>
   writerows fieldnames rows = Some (concat (map (\<lambda>r. writerow (row_texts fieldnames r)) rows))"
  by (induction rows) (simp_all add: dict_to_list_row_texts)

lemma decode_written: "decode_utf8_sig (BOM @ text) = text"
  by (simp add: decode_utf8_sig_def)

text \<open>
  What a reader finds in a file that \<open>write_results_csv\<close> has written, with the escape
  character of the writer or with none.
\<close>

lemma reparse_written:
  assumes esc: "esc = None \<or> esc = Some escapechar"
    and names: "fieldnames \<noteq> []"
    and keys: "\<forall>r\<in>set rows. set (map fst r) \<subseteq> set fieldnames"
    and header: "\<forall>v\<in>set fieldnames. codepoints (read_back esc v) \<le> limit"
    and sizes: "\<forall>r\<in>set rows. \<forall>v\<in>set (row_texts fieldnames r). codepoints (read_back esc v) \<le> limit"
  shows "\<exists>bytes. write_results_csv fieldnames rows = Some bytes \<and>
           reparse esc limit bytes =
           Some (map (map (read_back esc)) (fieldnames # map (row_texts fieldnames) rows))"
proof -
  let ?vss = "fieldnames # map (row_texts fieldnames) rows"
  have written: "write_results_csv fieldnames rows = Some (BOM @ concat (map writerow ?vss))"
    using writerows_text [OF keys] by (simp add: write_results_csv_def comp_def)
  have "\<forall>vs\<in>set ?vss. vs \<noteq> [] \<and> (\<forall>v\<in>set vs. codepoints (read_back esc v) \<le> limit)"
    using names header sizes by (auto simp: row_texts_def)
  from read_written_rows [OF esc this]
  have "reparse esc limit (BOM @ concat (map writerow ?vss)) = Some (map (map (read_back esc)) ?vss)"
    by (simp add: reparse_def decode_written)
  with written show ?thesis
    by blast
qed

lemma codepoints_le_length: "codepoints s \<le> length s"
  by (simp add: codepoints_def)

lemma codepoints_short: "length s \<le> limit \<Longrightarrow> codepoints s \<le> limit"
  using codepoints_le_length [of s] by simp

text \<open>The keys of the records that the scripts build are field names.\<close>

lemma gemini_row_keys:
  "set (map fst (gemini_out_row now model visual_idx row j p res)) \<subseteq> set gemini_fieldnames"
  by (simp add: gemini_out_row_def gemini_fieldnames_def)

lemma openai_row_keys:
  "set (map fst (openai_out_row now model visual_idx row j p resp)) \<subseteq> set openai_fieldnames"
  by (simp add: openai_out_row_def openai_fieldnames_def)

lemma tricky_texts:
  "row_texts gemini_fieldnames tricky_row =
     [''2025-01-01T00:00:00+00:00'', ''gemini'', ''gemini-2.5-flash'', ''2'', ''Buddhism'',
      [], [], [], ''p1'', ''Hva er buddhisme?'',
      [CHR ''a'', CHR '';'', CHR 0x22, CHR ''b'', CHR 0x22, CHR 0x0D, CHR 0x0A, CHR 0x5C, CHR ''n''],
      []]"
proof -
  have n: "str_nat 2 = ''2''" "str_nat (Suc 0) = ''1''"
    by code_simp+
  show ?thesis
    by (simp add: row_texts_def gemini_fieldnames_def tricky_row_def gemini_out_row_def n
        field_text_def of_cell_def row_get_def blank_first_def)
qed

lemma backslash_texts:
  "row_texts gemini_fieldnames backslash_row =
     [''2025-01-01T00:00:00+00:00'', ''gemini'', ''gemini-2.5-flash'', ''2'', ''Buddhism'',
      [], [], [], ''p1'', ''Hva er buddhisme?'', [CHR 0x5C], []]"
proof -
  have n: "str_nat 2 = ''2''" "str_nat (Suc 0) = ''1''"
    by code_simp+
  show ?thesis
    by (simp add: row_texts_def gemini_fieldnames_def backslash_row_def gemini_out_row_def n
        field_text_def of_cell_def row_get_def blank_first_def)
qed


section \<open>Stripping\<close>

text \<open>
  What \<open>strip\<close> does to a string: the whitespace characters are the 29 code points that
  \<open>str.isspace\<close> accepts, in UTF-8. None of them is a prefix of another one, and the same
  holds for their reversals, with which \<open>rstrip\<close> is written.
\<close>

lemma prefix_free_whitespace: "prefix_free whitespace"
  by code_simp

lemma prefix_free_whitespace_rev: "prefix_free (map rev whitespace)"
  by code_simp


lemma ws_len_zero:
  assumes "[] \<notin> set pats"
  shows "(ws_len pats s = 0) = (\<not> list_ex (\<lambda>w. prefix w s) pats)"
proof (cases "find (\<lambda>w. prefix w s) pats")
  case None
  then have "\<not> list_ex (\<lambda>w. prefix w s) pats"
    by (simp add: list_ex_iff find_None_iff)
  with None show ?thesis
    by (simp add: ws_len_def)
next
  case (Some w)
  then have "w \<in> set pats" and "prefix w s"
    by (auto simp: find_Some_iff)
  with assms Some show ?thesis
    by (auto simp: ws_len_def list_ex_iff)
qed

lemma ws_len_lstrip_with: "ws_len pats (lstrip_with pats s) = 0"
  by (induction pats s rule: lstrip_with.induct) (simp add: lstrip_with.simps)

lemma ws_len_prefix:
  assumes "ws_len pats s \<noteq> 0"
  shows "\<exists>w\<in>set pats. s = w @ drop (ws_len pats s) s"
proof -
  from assms obtain w where w: "find (\<lambda>w. prefix w s) pats = Some w"
    by (auto simp: ws_len_def split: option.splits)
  then have "w \<in> set pats" and "prefix w s"
    by (auto simp: find_Some_iff)
  moreover from w have "ws_len pats s = length w"
    by (simp add: ws_len_def)
  ultimately show ?thesis
    by (auto simp: prefix_def)
qed

text \<open>What \<open>lstrip_with\<close> removes is a sequence of patterns.\<close>

lemma lstrip_with_removes:
  "\<exists>ws. set ws \<subseteq> set pats \<and> s = concat ws @ lstrip_with pats s"
proof (induction pats s rule: lstrip_with.induct)
  case (1 pats s)
  show ?case
  proof (cases "ws_len pats s = 0")
    case True
    then show ?thesis
      by (intro exI [of _ "[]"]) (simp add: lstrip_with.simps)
  next
    case False
    from ws_len_prefix [OF False] obtain w where w: "w \<in> set pats"
      and s: "s = w @ drop (ws_len pats s) s"
      by blast
    from "1.IH" [OF False] obtain ws where ws: "set ws \<subseteq> set pats"
      and rest: "drop (ws_len pats s) s = concat ws @ lstrip_with pats (drop (ws_len pats s) s)"
      by blast
    have "lstrip_with pats s = lstrip_with pats (drop (ws_len pats s) s)"
      using False by (simp add: lstrip_with.simps [of pats s])
    with s rest have "s = concat (w # ws) @ lstrip_with pats s"
      by (metis append.assoc concat.simps(2))
    with w ws show ?thesis
      by (intro exI [of _ "w # ws"]) simp
  qed
qed

text \<open>
  No pattern is a prefix of another one, so a string that starts with a pattern loses
  exactly that pattern.
\<close>

lemma ws_len_pattern:
  assumes "prefix_free pats" and "w \<in> set pats"
  shows "ws_len pats (w @ t) = length w" and "w \<noteq> []"
proof -
  from assms show ne: "w \<noteq> []"
    by (auto simp: prefix_free_def list_all_iff)
  have "find (\<lambda>v. prefix v (w @ t)) pats \<noteq> None"
    using assms(2) by (auto simp: find_None_iff)
  then obtain v where v: "find (\<lambda>v. prefix v (w @ t)) pats = Some v"
    by blast
  then have "v \<in> set pats" and "prefix v (w @ t)"
    by (auto simp: find_Some_iff)
  then have "prefix v w \<or> prefix w v"
    by (metis prefix_append prefixI prefix_same_cases)
  with assms \<open>v \<in> set pats\<close> have "v = w"
    by (auto simp: prefix_free_def list_all_iff)
  with v show "ws_len pats (w @ t) = length w"
    by (simp add: ws_len_def)
qed

lemma lstrip_with_patterns:
  assumes "prefix_free pats" and "set ws \<subseteq> set pats"
  shows "lstrip_with pats (concat ws @ t) = lstrip_with pats t"
  using assms(2)
proof (induction ws)
  case Nil
  then show ?case by simp
next
  case (Cons w ws)
  then have w: "w \<in> set pats" and ws: "set ws \<subseteq> set pats"
    by simp_all
  from ws_len_pattern(1) [OF assms(1) w, of "concat ws @ t"] ws_len_pattern(2) [OF assms(1) w]
  have "lstrip_with pats (w @ concat ws @ t) = lstrip_with pats (concat ws @ t)"
    by (simp add: lstrip_with.simps [of pats "w @ concat ws @ t"])
  with Cons.IH [OF ws] show ?case
    by simp
qed

lemma lstrip_with_Nil: "lstrip_with pats [] = []"
proof -
  have "ws_len pats [] = 0"
    by (auto simp: ws_len_def find_Some_iff split: option.splits)
  then show ?thesis
    by (simp add: lstrip_with.simps)
qed

lemma whitespace_only_append:
  "whitespace_only a \<Longrightarrow> whitespace_only b \<Longrightarrow> whitespace_only (a @ b)"
proof -
  assume "whitespace_only a" and "whitespace_only b"
  then obtain ws vs where "set ws \<subseteq> set whitespace" "a = concat ws"
    "set vs \<subseteq> set whitespace" "b = concat vs"
    by (auto simp: whitespace_only_def)
  then have "set (ws @ vs) \<subseteq> set whitespace \<and> a @ b = concat (ws @ vs)"
    by simp
  then show ?thesis
    unfolding whitespace_only_def by blast
qed

lemma lstrip_parts: "\<exists>a. whitespace_only a \<and> s = a @ lstrip s"
  using lstrip_with_removes [of whitespace s] by (auto simp: whitespace_only_def lstrip_def)

lemma rstrip_parts: "\<exists>b. whitespace_only b \<and> s = rstrip s @ b"
proof -
  from lstrip_with_removes [of "map rev whitespace" "rev s"]
  obtain ws where ws: "set ws \<subseteq> set (map rev whitespace)"
    and eq: "rev s = concat ws @ lstrip_with (map rev whitespace) (rev s)"
    by blast
  from eq have "rev (rev s) = rev (concat ws @ lstrip_with (map rev whitespace) (rev s))"
    by simp
  then have s: "s = rstrip s @ concat (map rev (rev ws))"
    by (simp add: rstrip_def rev_concat)
  have "set (map rev (rev ws)) \<subseteq> set whitespace"
    using ws by auto
  then have "whitespace_only (concat (map rev (rev ws)))"
    unfolding whitespace_only_def by blast
  with s show ?thesis
    by blast
qed

text \<open>
  \<open>strip\<close> takes a sequence of whitespace characters from each end of the string and
  leaves the rest as it is.
\<close>

lemma strip_parts: "\<exists>a b. whitespace_only a \<and> whitespace_only b \<and> s = a @ strip s @ b"
proof -
  obtain a where a: "whitespace_only a" "s = a @ lstrip s"
    using lstrip_parts by blast
  obtain b where b: "whitespace_only b" "lstrip s = rstrip (lstrip s) @ b"
    using rstrip_parts by blast
  from a(2) b(2) have "s = a @ strip s @ b"
    by (simp add: strip_def)
  with a(1) b(1) show ?thesis
    by blast
qed

lemma whitespace_nonempty: "[] \<notin> set whitespace" "[] \<notin> set (map rev whitespace)"
  using prefix_free_whitespace prefix_free_whitespace_rev
  by (auto simp: prefix_free_def list_all_iff)

lemma not_starts_with_space_lstrip: "\<not> starts_with_space (lstrip s)"
  using ws_len_lstrip_with [of whitespace s]
  by (simp add: starts_with_space_def lstrip_def ws_len_zero [OF whitespace_nonempty(1)])

lemma not_ends_with_space_rstrip: "\<not> ends_with_space (rstrip s)"
proof -
  have "\<not> list_ex (\<lambda>w. prefix w (rev (rstrip s))) (map rev whitespace)"
    using ws_len_lstrip_with [of "map rev whitespace" "rev s"]
    by (simp add: rstrip_def ws_len_zero [OF whitespace_nonempty(2)])
  then show ?thesis
    by (auto simp: ends_with_space_def list_ex_iff suffix_to_prefix)
qed

text \<open>What \<open>strip\<close> returns neither starts nor ends with a whitespace character.\<close>

lemma strip_no_space: "\<not> starts_with_space (strip s)" "\<not> ends_with_space (strip s)"
proof -
  show "\<not> ends_with_space (strip s)"
    by (simp add: strip_def not_ends_with_space_rstrip)
  obtain b where "lstrip s = strip s @ b"
    using rstrip_parts [of "lstrip s"] by (auto simp: strip_def)
  then have "prefix (strip s) (lstrip s)"
    by (metis prefixI)
  then have "starts_with_space (strip s) \<Longrightarrow> starts_with_space (lstrip s)"
    by (auto simp: starts_with_space_def list_ex_iff intro: prefix_order.trans)
  then show "\<not> starts_with_space (strip s)"
    using not_starts_with_space_lstrip by blast
qed

text \<open>\<open>strip\<close> leaves nothing of a string exactly when the string is whitespace only.\<close>

lemma strip_empty_iff: "(strip s = []) = whitespace_only s"
proof
  assume "strip s = []"
  with strip_parts [of s] show "whitespace_only s"
    by (auto intro: whitespace_only_append)
next
  assume "whitespace_only s"
  then obtain ws where ws: "set ws \<subseteq> set whitespace" and s: "s = concat ws"
    by (auto simp: whitespace_only_def)
  from lstrip_with_patterns [OF prefix_free_whitespace ws, of "[]"] s
  have "lstrip s = []"
    by (simp add: lstrip_def lstrip_with_Nil)
  then show "strip s = []"
    by (simp add: strip_def rstrip_def lstrip_with_Nil)
qed

section \<open>Retry exhaustion\<close>

text \<open>
  C1, as amended. When every attempt fails with a rate-limit-like error, both controllers
  return a result, after exactly the maximum number of invocations (\<open>MAX_RETRIES = 6\<close>,
  \<open>RETRIES = 3\<close>), with a non-empty sentinel as \<open>response_text\<close>. The Gemini controller
  returns \<open>ERROR: too many retries due to rate limits\<close> with an empty \<open>error\<close>. The OpenAI
  controller returns \<open>[ERROR]\<close>, and its \<open>error\<close> is not empty: it is the type and message
  of the last failure.
\<close>

theorem retry_exhaustion:
  "((\<forall>i<MAX_RETRIES. rate_limit_failure (gapi (calls w + i) model (full_prompt prompt))) \<longrightarrow>
      (\<exists>w'. call_gemini_safe gapi uniform prompt model w =
              (\<lparr>response_text = ''ERROR: too many retries due to rate limits'', error = []\<rparr>, w') \<and>
            calls w' = calls w + MAX_RETRIES)) \<and>
   ((\<forall>i<RETRIES. rate_limit_failure (oapi (calls w + i) model SYSTEM_NO prompt MAX_TOKENS)) \<longrightarrow>
      (\<exists>w' e. oapi (calls w + RETRIES - 1) model SYSTEM_NO prompt MAX_TOKENS = Raises e \<and>
              call_openai_chat_with_retries oapi model prompt w =
                (\<lparr>response_text = ''[ERROR]'', error = type_name e @ '': '' @ message e,
                  prompt_tokens = PStr [], completion_tokens = PStr [], total_tokens = PStr []\<rparr>, w') \<and>
              type_name e @ '': '' @ message e \<noteq> [] \<and>
              calls w' = calls w + RETRIES))"
proof (intro conjI impI)
  assume "\<forall>i<MAX_RETRIES. rate_limit_failure (gapi (calls w + i) model (full_prompt prompt))"
  with gemini_loop_skip [where n = MAX_RETRIES and k = MAX_RETRIES and api = gapi and w = w
      and model_name = model and full = "full_prompt prompt" and uniform = uniform and attempt = 0]
  show "\<exists>w'. call_gemini_safe gapi uniform prompt model w =
              (\<lparr>response_text = ''ERROR: too many retries due to rate limits'', error = []\<rparr>, w') \<and>
            calls w' = calls w + MAX_RETRIES"
    by (auto simp: call_gemini_safe_def)
next
  assume a: "\<forall>i<RETRIES. rate_limit_failure (oapi (calls w + i) model SYSTEM_NO prompt MAX_TOKENS)"
  have raises: "\<exists>e. openai_try (oapi (calls w + i) model SYSTEM_NO prompt MAX_TOKENS) = Raises e \<and>
                    oapi (calls w + i) model SYSTEM_NO prompt MAX_TOKENS = Raises e"
    if "i < RETRIES" for i
    using a that by (auto simp: rate_limit_failure_def openai_try_def split: outcome.splits)
  then have "\<forall>i<RETRIES. \<exists>e. openai_try (oapi (calls w + i) model SYSTEM_NO prompt MAX_TOKENS) = Raises e"
    by blast
  with openai_loop_skip [where n = RETRIES and k = RETRIES and api = oapi and w = w
      and model = model and prompt = prompt and attempt = 1 and last_err = "[]"]
  obtain w' e where "calls w' = calls w + RETRIES"
    and "openai_loop oapi model prompt RETRIES 1 [] w =
         openai_loop oapi model prompt 0 (1 + RETRIES) (type_name e @ '': '' @ message e) w'"
    and "openai_try (oapi (calls w + 2) model SYSTEM_NO prompt MAX_TOKENS) = Raises e"
    by (auto simp: RETRIES_def numeral_3_eq_3)
  moreover from raises [of 2] this(3)
  have "oapi (calls w + 2) model SYSTEM_NO prompt MAX_TOKENS = Raises e"
    by (auto simp: RETRIES_def)
  ultimately show "\<exists>w' e. oapi (calls w + RETRIES - 1) model SYSTEM_NO prompt MAX_TOKENS = Raises e \<and>
              call_openai_chat_with_retries oapi model prompt w =
                (\<lparr>response_text = ''[ERROR]'', error = type_name e @ '': '' @ message e,
                  prompt_tokens = PStr [], completion_tokens = PStr [], total_tokens = PStr []\<rparr>, w') \<and>
              type_name e @ '': '' @ message e \<noteq> [] \<and>
              calls w' = calls w + RETRIES"
    by (intro exI [of _ w'] exI [of _ e]) (simp add: call_openai_chat_with_retries_def RETRIES_def)
qed

text \<open>A run of each controller against a provider that is always rate limited.\<close>

theorem retry_exhaustion_witness:
  "rate_limit_failure (gemini_always_rate_limited 0 ''gemini-2.5-flash'' (full_prompt ''Hei'')) \<and>
   rate_limit_failure (always_rate_limited 0 ''gpt-5'' SYSTEM_NO ''Hei'' MAX_TOKENS) \<and>
   fst (call_gemini_safe gemini_always_rate_limited no_jitter ''Hei'' ''gemini-2.5-flash'' world0) =
     \<lparr>response_text = ''ERROR: too many retries due to rate limits'', error = []\<rparr> \<and>
   calls (snd (call_gemini_safe gemini_always_rate_limited no_jitter ''Hei'' ''gemini-2.5-flash'' world0)) = 6 \<and>
   response_text (fst (call_openai_chat_with_retries always_rate_limited ''gpt-5'' ''Hei'' world0)) = ''[ERROR]'' \<and>
   calls (snd (call_openai_chat_with_retries always_rate_limited ''gpt-5'' ''Hei'' world0)) = 3"
proof -
  have g: "rate_limited (lower ''429 Resource exhausted: quota'')"
    by code_simp
  have o: "rate_limited (lower ''Error code: 429 - Rate limit reached'')"
    by code_simp
  have hg: "\<forall>i<MAX_RETRIES. rate_limit_failure
       (gemini_always_rate_limited (calls world0 + i) ''gemini-2.5-flash'' (full_prompt ''Hei''))"
    using g by (simp add: rate_limit_failure_def gemini_always_rate_limited_def)
  have ho: "\<forall>i<RETRIES. rate_limit_failure
       (always_rate_limited (calls world0 + i) ''gpt-5'' SYSTEM_NO ''Hei'' MAX_TOKENS)"
    using o by (simp add: rate_limit_failure_def always_rate_limited_def)
  from retry_exhaustion [of gemini_always_rate_limited world0 "''gemini-2.5-flash''" "''Hei''"
      no_jitter always_rate_limited] hg
  have 1: "fst (call_gemini_safe gemini_always_rate_limited no_jitter ''Hei'' ''gemini-2.5-flash'' world0) =
     \<lparr>response_text = ''ERROR: too many retries due to rate limits'', error = []\<rparr> \<and>
   calls (snd (call_gemini_safe gemini_always_rate_limited no_jitter ''Hei'' ''gemini-2.5-flash'' world0)) = 6"
    by (auto simp: world0_def MAX_RETRIES_def)
  from retry_exhaustion [of gemini_always_rate_limited world0 "''gpt-5''" "''Hei''"
      no_jitter always_rate_limited] ho
  have 2: "response_text (fst (call_openai_chat_with_retries always_rate_limited ''gpt-5'' ''Hei'' world0)) = ''[ERROR]'' \<and>
   calls (snd (call_openai_chat_with_retries always_rate_limited ''gpt-5'' ''Hei'' world0)) = 3"
    by (auto simp: world0_def RETRIES_def)
  from g o 1 2 show ?thesis
    by (simp add: rate_limit_failure_def gemini_always_rate_limited_def always_rate_limited_def)
qed

text \<open>
  C1 as stated asks for an empty \<open>error\<close> from every controller. The OpenAI controller,
  rate limited three times, returns the last failure in \<open>error\<close>.
\<close>

theorem retry_exhaustion_error_counterexample:
  "rate_limit_failure (always_rate_limited 0 ''gpt-5'' SYSTEM_NO ''Hei'' MAX_TOKENS) \<and>
   rate_limit_failure (always_rate_limited 1 ''gpt-5'' SYSTEM_NO ''Hei'' MAX_TOKENS) \<and>
   rate_limit_failure (always_rate_limited 2 ''gpt-5'' SYSTEM_NO ''Hei'' MAX_TOKENS) \<and>
   error (fst (call_openai_chat_with_retries always_rate_limited ''gpt-5'' ''Hei'' world0)) =
     ''RateLimitError: Error code: 429 - Rate limit reached'' \<and>
   error (fst (call_openai_chat_with_retries always_rate_limited ''gpt-5'' ''Hei'' world0)) \<noteq> []"
proof -
  have o: "rate_limited (lower ''Error code: 429 - Rate limit reached'')"
    by code_simp
  have "error (fst (call_openai_chat_with_retries always_rate_limited ''gpt-5'' ''Hei'' world0)) =
     ''RateLimitError: Error code: 429 - Rate limit reached''"
    by (simp add: call_openai_chat_with_retries_def RETRIES_def numeral_3_eq_3 always_rate_limited_def
        openai_try_def world0_def)
  with o show ?thesis
    by (simp add: rate_limit_failure_def always_rate_limited_def)
qed

section \<open>Success after transient failures\<close>

text \<open>
  C2. When the provider call fails with a rate-limit-like error on the first \<open>n\<close>
  invocations and succeeds on the next one, and \<open>n + 1\<close> is at most the maximum attempt
  count, the controller returns the result of that successful call, with an empty \<open>error\<close>,
  after exactly \<open>n + 1\<close> invocations. This holds for \<open>call_gemini_safe\<close> (at most 6
  attempts) and for \<open>call_openai_chat_with_retries\<close> (at most 3).
\<close>

theorem success_after_failures:
  "(n < MAX_RETRIES \<and>
    (\<forall>i<n. rate_limit_failure (gapi (calls w + i) model (full_prompt prompt))) \<and>
    gapi (calls w + n) model (full_prompt prompt) = Returns resp \<longrightarrow>
      (\<exists>w'. call_gemini_safe gapi uniform prompt model w = (gemini_result resp, w') \<and>
            error (gemini_result resp) = [] \<and> calls w' = calls w + n + 1)) \<and>
   (n < RETRIES \<and>
    (\<forall>i<n. rate_limit_failure (oapi (calls w + i) model SYSTEM_NO prompt MAX_TOKENS)) \<and>
    openai_try (oapi (calls w + n) model SYSTEM_NO prompt MAX_TOKENS) = Returns res \<longrightarrow>
      (\<exists>w'. call_openai_chat_with_retries oapi model prompt w = (res, w') \<and>
            error res = [] \<and> calls w' = calls w + n + 1))"
proof (intro conjI impI; elim conjE)
  assume n: "n < MAX_RETRIES"
    and fails: "\<forall>i<n. rate_limit_failure (gapi (calls w + i) model (full_prompt prompt))"
    and ok: "gapi (calls w + n) model (full_prompt prompt) = Returns resp"
  from gemini_after_failures [where n = n and api = gapi and w = w and model = model
      and prompt = prompt and uniform = uniform, OF n fails]
  obtain w1 where w1: "calls w1 = calls w + n"
    and run: "call_gemini_safe gapi uniform prompt model w =
         gemini_loop gapi uniform (full_prompt prompt) model (Suc (MAX_RETRIES - Suc n)) n w1"
    by blast
  from ok w1 have "gapi (calls w1) model (full_prompt prompt) = Returns resp"
    by simp
  with run w1
  show "\<exists>w'. call_gemini_safe gapi uniform prompt model w = (gemini_result resp, w') \<and>
            error (gemini_result resp) = [] \<and> calls w' = calls w + n + 1"
    by (simp add: gemini_result_error Let_def)
next
  assume n: "n < RETRIES"
    and fails: "\<forall>i<n. rate_limit_failure (oapi (calls w + i) model SYSTEM_NO prompt MAX_TOKENS)"
    and ok: "openai_try (oapi (calls w + n) model SYSTEM_NO prompt MAX_TOKENS) = Returns res"
  from fails have
    "\<forall>i<n. \<exists>e. openai_try (oapi (calls w + i) model SYSTEM_NO prompt MAX_TOKENS) = Raises e"
    by (blast dest: rate_limit_failure_openai_try)
  from openai_after_failures [where n = n and api = oapi and w = w and model = model
      and prompt = prompt, OF n this]
  obtain w1 last where w1: "calls w1 = calls w + n"
    and run: "call_openai_chat_with_retries oapi model prompt w =
           openai_loop oapi model prompt (Suc (RETRIES - Suc n)) (1 + n) last w1"
    by blast
  from ok w1 have "openai_try (oapi (calls w1) model SYSTEM_NO prompt MAX_TOKENS) = Returns res"
    by simp
  with run w1 openai_try_error [OF ok]
  show "\<exists>w'. call_openai_chat_with_retries oapi model prompt w = (res, w') \<and>
            error res = [] \<and> calls w' = calls w + n + 1"
    by (simp add: Let_def)
qed

text \<open>Two rate-limited failures, then an answer: three invocations.\<close>

theorem success_after_failures_witness:
  "fst (call_gemini_safe gemini_third_time_lucky no_jitter ''Hei'' ''gemini-2.5-flash'' world0) =
     \<lparr>response_text = ''Buddhismen er en religion.'', error = []\<rparr> \<and>
   calls (snd (call_gemini_safe gemini_third_time_lucky no_jitter ''Hei'' ''gemini-2.5-flash'' world0)) = 3 \<and>
   fst (call_openai_chat_with_retries openai_third_time_lucky ''gpt-5'' ''Hei'' world0) =
     \<lparr>response_text = ''Buddhismen er en religion.'', error = [],
      prompt_tokens = PInt 40, completion_tokens = PInt 7, total_tokens = PInt 47\<rparr> \<and>
   calls (snd (call_openai_chat_with_retries openai_third_time_lucky ''gpt-5'' ''Hei'' world0)) = 3"
proof -
  let ?resp = "\<lparr>resp_text = Some '' Buddhismen er en religion. '', resp_candidates = []\<rparr>"
  let ?res = "\<lparr>response_text = ''Buddhismen er en religion.'', error = [],
      prompt_tokens = PInt 40, completion_tokens = PInt 7, total_tokens = PInt 47\<rparr>"
  have g: "rate_limit_failure
      (Raises (Failure ''ResourceExhausted'' ''429 Resource exhausted: quota'') :: response outcome)"
    by code_simp
  have o: "rate_limit_failure
      (Raises (Failure ''RateLimitError'' ''Error code: 429 - Rate limit reached'') :: chat_response outcome)"
    by code_simp
  have s: "strip '' Buddhismen er en religion. '' = ''Buddhismen er en religion.''"
    by code_simp
  have hg: "\<forall>i<2. rate_limit_failure
       (gemini_third_time_lucky (calls world0 + i) ''gemini-2.5-flash'' (full_prompt ''Hei''))"
    using g by (simp add: gemini_third_time_lucky_def world0_def)
  have rg: "gemini_third_time_lucky (calls world0 + 2) ''gemini-2.5-flash'' (full_prompt ''Hei'') =
      Returns ?resp"
    by (simp add: gemini_third_time_lucky_def world0_def)
  have ho: "\<forall>i<2. rate_limit_failure
       (openai_third_time_lucky (calls world0 + i) ''gpt-5'' SYSTEM_NO ''Hei'' MAX_TOKENS)"
    using o by (simp add: openai_third_time_lucky_def world0_def)
  have ro: "openai_try (openai_third_time_lucky (calls world0 + 2) ''gpt-5'' SYSTEM_NO ''Hei'' MAX_TOKENS) =
      Returns ?res"
    using s by (simp add: openai_third_time_lucky_def openai_try_def usage_field_def world0_def)
  have gr: "gemini_result ?resp = \<lparr>response_text = ''Buddhismen er en religion.'', error = []\<rparr>"
    using s by (simp add: gemini_result_def extract_text_def)
  from success_after_failures [where n = 2 and gapi = gemini_third_time_lucky and w = world0
      and model = "''gemini-2.5-flash''" and prompt = "''Hei''" and resp = ?resp
      and uniform = no_jitter and oapi = openai_third_time_lucky and res = ?res, THEN conjunct1]
    hg rg gr
  have 1: "fst (call_gemini_safe gemini_third_time_lucky no_jitter ''Hei'' ''gemini-2.5-flash'' world0) =
     \<lparr>response_text = ''Buddhismen er en religion.'', error = []\<rparr> \<and>
   calls (snd (call_gemini_safe gemini_third_time_lucky no_jitter ''Hei'' ''gemini-2.5-flash'' world0)) = 3"
    by (auto simp: world0_def MAX_RETRIES_def)
  from success_after_failures [where n = 2 and gapi = gemini_third_time_lucky and w = world0
      and model = "''gpt-5''" and prompt = "''Hei''" and resp = ?resp
      and uniform = no_jitter and oapi = openai_third_time_lucky and res = ?res, THEN conjunct2]
    ho ro
  have 2: "fst (call_openai_chat_with_retries openai_third_time_lucky ''gpt-5'' ''Hei'' world0) = ?res \<and>
   calls (snd (call_openai_chat_with_retries openai_third_time_lucky ''gpt-5'' ''Hei'' world0)) = 3"
    by (auto simp: world0_def RETRIES_def)
  from 1 2 show ?thesis
    by blast
qed


section \<open>Failures that are neither transient nor a block\<close>

text \<open>
  C3, as amended. In \<open>call_gemini_safe\<close>, a failure whose lowered message holds neither a
  rate-limit indicator nor \<open>safety\<close> or \<open>blocked\<close> ends the call at once: the result is
  \<open>[ERROR]\<close> with the type and message of the failure in \<open>error\<close>, and no further
  invocation is made. \<open>call_openai_chat_with_retries\<close> does not look at the message: it
  retries after every failure, and returns the error result, with the last failure in
  \<open>error\<close>, only when all three attempts have failed.
\<close>

theorem unknown_failure_terminal:
  "(n < MAX_RETRIES \<and>
    (\<forall>i<n. rate_limit_failure (gapi (calls w + i) model (full_prompt prompt))) \<and>
    gapi (calls w + n) model (full_prompt prompt) = Raises e \<and>
    \<not> rate_limited (lower (message e)) \<and> \<not> safety_blocked (lower (message e)) \<longrightarrow>
      (\<exists>w'. call_gemini_safe gapi uniform prompt model w =
              (\<lparr>response_text = ''[ERROR]'', error = type_name e @ '': '' @ message e\<rparr>, w') \<and>
            type_name e @ '': '' @ message e \<noteq> [] \<and>
            calls w' = calls w + n + 1)) \<and>
   ((\<forall>i<RETRIES. \<exists>e'. openai_try (oapi (calls w + i) model SYSTEM_NO prompt MAX_TOKENS) = Raises e') \<longrightarrow>
      (\<exists>w' e'. openai_try (oapi (calls w + RETRIES - 1) model SYSTEM_NO prompt MAX_TOKENS) = Raises e' \<and>
              call_openai_chat_with_retries oapi model prompt w =
                (\<lparr>response_text = ''[ERROR]'', error = type_name e' @ '': '' @ message e',
                  prompt_tokens = PStr [], completion_tokens = PStr [], total_tokens = PStr []\<rparr>, w') \<and>
              type_name e' @ '': '' @ message e' \<noteq> [] \<and>
              calls w' = calls w + RETRIES))"
proof (intro conjI impI; (elim conjE)?)
  assume n: "n < MAX_RETRIES"
    and fails: "\<forall>i<n. rate_limit_failure (gapi (calls w + i) model (full_prompt prompt))"
    and raises: "gapi (calls w + n) model (full_prompt prompt) = Raises e"
    and other: "\<not> rate_limited (lower (message e))" "\<not> safety_blocked (lower (message e))"
  from gemini_after_failures [where n = n and api = gapi and w = w and model = model
      and prompt = prompt and uniform = uniform, OF n fails]
  obtain w1 where w1: "calls w1 = calls w + n"
    and run: "call_gemini_safe gapi uniform prompt model w =
         gemini_loop gapi uniform (full_prompt prompt) model (Suc (MAX_RETRIES - Suc n)) n w1"
    by blast
  from raises w1 have "gapi (calls w1) model (full_prompt prompt) = Raises e"
    by simp
  with run w1 other
  show "\<exists>w'. call_gemini_safe gapi uniform prompt model w =
              (\<lparr>response_text = ''[ERROR]'', error = type_name e @ '': '' @ message e\<rparr>, w') \<and>
            type_name e @ '': '' @ message e \<noteq> [] \<and>
            calls w' = calls w + n + 1"
    by (simp add: Let_def)
next
  assume "\<forall>i<RETRIES. \<exists>e'. openai_try (oapi (calls w + i) model SYSTEM_NO prompt MAX_TOKENS) = Raises e'"
  with openai_loop_skip [where n = RETRIES and k = RETRIES and api = oapi and w = w
      and model = model and prompt = prompt and attempt = 1 and last_err = "[]"]
  obtain w' e' where "calls w' = calls w + RETRIES"
    and "openai_loop oapi model prompt RETRIES 1 [] w =
         openai_loop oapi model prompt 0 (1 + RETRIES) (type_name e' @ '': '' @ message e') w'"
    and "openai_try (oapi (calls w + 2) model SYSTEM_NO prompt MAX_TOKENS) = Raises e'"
    by (auto simp: RETRIES_def numeral_3_eq_3)
  then show "\<exists>w' e'. openai_try (oapi (calls w + RETRIES - 1) model SYSTEM_NO prompt MAX_TOKENS) = Raises e' \<and>
              call_openai_chat_with_retries oapi model prompt w =
                (\<lparr>response_text = ''[ERROR]'', error = type_name e' @ '': '' @ message e',
                  prompt_tokens = PStr [], completion_tokens = PStr [], total_tokens = PStr []\<rparr>, w') \<and>
              type_name e' @ '': '' @ message e' \<noteq> [] \<and>
              calls w' = calls w + RETRIES"
    by (intro exI [of _ w'] exI [of _ e']) (simp add: call_openai_chat_with_retries_def RETRIES_def)
qed

text \<open>
  An invalid API key ends the Gemini call after one invocation; a rejected request is sent
  to OpenAI three times.
\<close>

theorem unknown_failure_terminal_witness:
  "fst (call_gemini_safe gemini_invalid_argument no_jitter ''Hei'' ''gemini-2.5-flash'' world0) =
     \<lparr>response_text = ''[ERROR]'', error = ''InvalidArgument: 400 API key not valid''\<rparr> \<and>
   calls (snd (call_gemini_safe gemini_invalid_argument no_jitter ''Hei'' ''gemini-2.5-flash'' world0)) = 1 \<and>
   fst (call_openai_chat_with_retries openai_always_fails ''gpt-5'' ''Hei'' world0) =
     \<lparr>response_text = ''[ERROR]'', error = ''BadRequestError: Error code: 400 - invalid model'',
      prompt_tokens = PStr [], completion_tokens = PStr [], total_tokens = PStr []\<rparr> \<and>
   calls (snd (call_openai_chat_with_retries openai_always_fails ''gpt-5'' ''Hei'' world0)) = 3"
proof -
  let ?e = "Failure ''InvalidArgument'' ''400 API key not valid''"
  have c: "\<not> rate_limited (lower (message ?e))" "\<not> safety_blocked (lower (message ?e))"
    by code_simp+
  have rg: "gemini_invalid_argument (calls world0 + 0) ''gemini-2.5-flash'' (full_prompt ''Hei'') = Raises ?e"
    by (simp add: gemini_invalid_argument_def)
  have ho: "\<forall>i<RETRIES. \<exists>e'. openai_try
      (openai_always_fails (calls world0 + i) ''gpt-5'' SYSTEM_NO ''Hei'' MAX_TOKENS) = Raises e'"
    by (simp add: openai_always_fails_def openai_try_def)
  from unknown_failure_terminal [where n = 0 and gapi = gemini_invalid_argument and w = world0
      and model = "''gemini-2.5-flash''" and prompt = "''Hei''" and e = ?e
      and uniform = no_jitter and oapi = openai_always_fails, THEN conjunct1] rg c
  have 1: "fst (call_gemini_safe gemini_invalid_argument no_jitter ''Hei'' ''gemini-2.5-flash'' world0) =
     \<lparr>response_text = ''[ERROR]'', error = ''InvalidArgument: 400 API key not valid''\<rparr> \<and>
   calls (snd (call_gemini_safe gemini_invalid_argument no_jitter ''Hei'' ''gemini-2.5-flash'' world0)) = 1"
    by (auto simp: world0_def MAX_RETRIES_def)
  from unknown_failure_terminal [where n = 0 and gapi = gemini_invalid_argument and w = world0
      and model = "''gpt-5''" and prompt = "''Hei''" and e = ?e
      and uniform = no_jitter and oapi = openai_always_fails, THEN conjunct2] ho
  have 2: "fst (call_openai_chat_with_retries openai_always_fails ''gpt-5'' ''Hei'' world0) =
     \<lparr>response_text = ''[ERROR]'', error = ''BadRequestError: Error code: 400 - invalid model'',
      prompt_tokens = PStr [], completion_tokens = PStr [], total_tokens = PStr []\<rparr> \<and>
   calls (snd (call_openai_chat_with_retries openai_always_fails ''gpt-5'' ''Hei'' world0)) = 3"
    by (auto simp: world0_def RETRIES_def openai_always_fails_def openai_try_def)
  from 1 2 show ?thesis
    by blast
qed

text \<open>
  C3 as stated asks every controller to stop at the first such failure. The OpenAI
  controller invokes the provider a second time after a rejected request, and returns the
  answer of that second invocation.
\<close>

theorem unknown_failure_retried_counterexample:
  "openai_fails_once 0 ''gpt-5'' SYSTEM_NO ''Hei'' MAX_TOKENS =
     Raises (Failure ''BadRequestError'' ''Error code: 400 - invalid model'') \<and>
   \<not> rate_limited (lower ''Error code: 400 - invalid model'') \<and>
   \<not> safety_blocked (lower ''Error code: 400 - invalid model'') \<and>
   fst (call_openai_chat_with_retries openai_fails_once ''gpt-5'' ''Hei'' world0) =
     \<lparr>response_text = ''Svar'', error = [],
      prompt_tokens = PStr [], completion_tokens = PStr [], total_tokens = PStr []\<rparr> \<and>
   calls (snd (call_openai_chat_with_retries openai_fails_once ''gpt-5'' ''Hei'' world0)) = 2"
proof -
  have c: "\<not> rate_limited (lower ''Error code: 400 - invalid model'')"
    "\<not> safety_blocked (lower ''Error code: 400 - invalid model'')"
    by code_simp+
  have s: "strip ''Svar'' = ''Svar''"
    by code_simp
  have "call_openai_chat_with_retries openai_fails_once ''gpt-5'' ''Hei'' world0 =
    (\<lparr>response_text = ''Svar'', error = [],
      prompt_tokens = PStr [], completion_tokens = PStr [], total_tokens = PStr []\<rparr>,
     \<lparr>calls = 2, slept = [1]\<rparr>)"
    using s by (simp add: call_openai_chat_with_retries_def RETRIES_def numeral_3_eq_3
        openai_fails_once_def openai_try_def world0_def usage_field_def RETRY_BACKOFF_def)
  with c show ?thesis
    by (simp add: openai_fails_once_def)
qed


section \<open>Blocked and empty responses\<close>




section \<open>Accumulation of the records\<close>

text \<open>
  C5. In both scripts, the loop over the selected rows produces as many records as there
  are prompts extracted from all selected rows together (a row without prompts adds none);
  the records are in call order, row by row and prompt by prompt within a row; and the
  records accumulated so far stay at the front of the list as they are, whatever is
  processed after them: the list only grows at its end.
\<close>

theorem record_accumulation:
  "length (fst (gemini_rows_loop gapi uniform clock a selected [] w)) =
     sum_list (map (\<lambda>(visual_idx, row). length (ensure_prompts row)) selected) \<and>
   map record_key (fst (gemini_rows_loop gapi uniform clock a selected [] w)) =
     call_order selected \<and>
   prefix out_rows (fst (gemini_rows_loop gapi uniform clock a selected out_rows w)) \<and>
   length (fst (openai_rows_loop oapi clock a selected [] w)) =
     sum_list (map (\<lambda>(visual_idx, row). length (ensure_prompts row)) selected) \<and>
   map record_key (fst (openai_rows_loop oapi clock a selected [] w)) =
     call_order selected \<and>
   prefix out_rows (fst (openai_rows_loop oapi clock a selected out_rows w))"
proof -
  obtain g wg where g: "gemini_rows_loop gapi uniform clock a selected [] w = ([] @ g, wg)"
    and kg: "map record_key g = call_order selected"
    using gemini_rows_loop_appends by blast
  obtain g' wg' where
    g': "gemini_rows_loop gapi uniform clock a selected out_rows w = (out_rows @ g', wg')"
    using gemini_rows_loop_appends by blast
  obtain og wo where o: "openai_rows_loop oapi clock a selected [] w = ([] @ og, wo)"
    and ko: "map record_key og = call_order selected"
    using openai_rows_loop_appends by blast
  obtain og' wo' where
    o': "openai_rows_loop oapi clock a selected out_rows w = (out_rows @ og', wo')"
    using openai_rows_loop_appends by blast
  from kg have "length g = length (call_order selected)"
    by (metis length_map)
  moreover from ko have "length og = length (call_order selected)"
    by (metis length_map)
  ultimately show ?thesis
    using g kg g' o ko o' by (simp add: length_call_order)
qed


section \<open>Prompt extraction\<close>

text \<open>
  C6. \<open>ensure_prompts\<close> returns the texts of the columns \<open>prompt_1\<close>, \<open>prompt_2\<close> and
  \<open>prompt_3\<close>, each stripped of surrounding whitespace, in that order, without those that
  are empty after stripping. So it returns exactly as many entries as there are prompt
  columns that are not empty after stripping, and at most three. Stripping is trimming:
  the text of each column is its stripped text between two sequences of whitespace
  characters, and nothing is left of it exactly when the column is missing, \<open>None\<close>,
  empty or made of whitespace only. Every entry returned is non-empty and neither starts
  nor ends with a whitespace character.
\<close>

theorem prompt_extraction:
  "ensure_prompts row =
     filter (\<lambda>t. t \<noteq> []) (map (\<lambda>k. strip (column_text row k)) prompt_columns) \<and>
   length (ensure_prompts row) =
     length (filter (\<lambda>k. strip (column_text row k) \<noteq> []) prompt_columns) \<and>
   length (ensure_prompts row) \<le> 3 \<and>
   (\<forall>k\<in>set prompt_columns. \<exists>a b. whitespace_only a \<and> whitespace_only b \<and>
      column_text row k = a @ strip (column_text row k) @ b) \<and>
   (\<forall>k\<in>set prompt_columns.
      (strip (column_text row k) = []) = whitespace_only (column_text row k)) \<and>
   (\<forall>e\<in>set (ensure_prompts row). e \<noteq> [] \<and> \<not> starts_with_space e \<and> \<not> ends_with_space e)"
proof -
  have order: "ensure_prompts row =
     filter (\<lambda>t. t \<noteq> []) (map (\<lambda>k. strip (column_text row k)) prompt_columns)"
    by (rule ensure_prompts_filter)
  have "length (filter (\<lambda>t. t \<noteq> []) (map (\<lambda>k. strip (column_text row k)) prompt_columns)) =
        length (filter (\<lambda>k. strip (column_text row k) \<noteq> []) prompt_columns)"
    by (simp add: filter_map comp_def)
  with order have count: "length (ensure_prompts row) =
     length (filter (\<lambda>k. strip (column_text row k) \<noteq> []) prompt_columns)"
    by simp
  have "length (filter (\<lambda>k. strip (column_text row k) \<noteq> []) prompt_columns) \<le> 3"
    using length_filter_le [of _ prompt_columns] by (simp add: prompt_columns_def del: length_filter_le)
  with count have most: "length (ensure_prompts row) \<le> 3"
    by simp
  have parts: "\<forall>k\<in>set prompt_columns. \<exists>a b. whitespace_only a \<and> whitespace_only b \<and>
      column_text row k = a @ strip (column_text row k) @ b"
    using strip_parts by blast
  have dropped: "\<forall>k\<in>set prompt_columns.
      (strip (column_text row k) = []) = whitespace_only (column_text row k)"
    using strip_empty_iff by blast
  have trimmed: "\<forall>e\<in>set (ensure_prompts row).
      e \<noteq> [] \<and> \<not> starts_with_space e \<and> \<not> ends_with_space e"
  proof
    fix e
    assume "e \<in> set (ensure_prompts row)"
    with order obtain k where "e = strip (column_text row k)" and "e \<noteq> []"
      by auto
    then show "e \<noteq> [] \<and> \<not> starts_with_space e \<and> \<not> ends_with_space e"
      by (simp add: strip_no_space)
  qed
  from order count most parts dropped trimmed show ?thesis
    by (intro conjI)
qed

text \<open>
  The padded row: its first prompt is returned without the whitespace around it, its
  second prompt, made of whitespace only, and its third prompt, \<open>None\<close>, are dropped.
\<close>

theorem prompt_extraction_witness:
  "ensure_prompts padded_row = [''Hva er buddhisme?''] \<and>
   strip (column_text padded_row ''prompt_2'') = [] \<and>
   \<not> starts_with_space ''Hva er buddhisme?'' \<and> \<not> ends_with_space ''Hva er buddhisme?''"
proof -
  have texts: "map (\<lambda>k. strip (column_text padded_row k)) prompt_columns = [''Hva er buddhisme?'', [], []]"
    by code_simp
  have blank: "column_text padded_row ''prompt_2'' =
      concat [[CHR 0xE2, CHR 0x80, CHR 0x83], '' '', [CHR 0x0D], [CHR 0x0A]]"
    by (simp add: padded_row_def column_text_def)
  have "set [[CHR 0xE2, CHR 0x80, CHR 0x83], '' '', [CHR 0x0D], [CHR 0x0A]] \<subseteq> set whitespace"
    by (simp add: whitespace_def)
  with blank have only: "whitespace_only (column_text padded_row ''prompt_2'')"
    unfolding whitespace_only_def by blast
  note at_row = prompt_extraction [of padded_row]
  from at_row texts have kept: "ensure_prompts padded_row = [''Hva er buddhisme?'']"
    by simp
  from at_row only have "strip (column_text padded_row ''prompt_2'') = []"
    by (simp add: prompt_columns_def)
  moreover from at_row kept
  have "\<not> starts_with_space ''Hva er buddhisme?'' \<and> \<not> ends_with_space ''Hva er buddhisme?''"
    by simp
  ultimately show ?thesis
    using kept by simp
qed

section \<open>Fatal exits\<close>

text \<open>
  C7, as amended. Without its key in the environment (the variable absent or empty), the
  OpenAI script exits with status 2; the Gemini script raises \<open>SystemExit\<close> with a message,
  so that it exits with status 1. With the key there and no data row in the input, each
  script exits with status 3. In all these cases no output file is written.
\<close>

theorem fatal_exits:
  "(key_missing env ''GOOGLE_API_KEY'' \<longrightarrow>
      gemini_main env gapi uniform clock rows_in a =
        Exits (Exit_message ''Missing GOOGLE_API_KEY environment variable.'') \<and>
      exit_status (gemini_main env gapi uniform clock rows_in a) = 1 \<and>
      output_files (gemini_main env gapi uniform clock rows_in a) = []) \<and>
   (key_missing env ''OPENAI_API_KEY'' \<longrightarrow>
      exit_status (openai_main env oapi clock rows_in a) = 2 \<and>
      output_files (openai_main env oapi clock rows_in a) = []) \<and>
   (\<not> key_missing env ''GOOGLE_API_KEY'' \<longrightarrow>
      exit_status (gemini_main env gapi uniform clock [] a) = 3 \<and>
      output_files (gemini_main env gapi uniform clock [] a) = []) \<and>
   (\<not> key_missing env ''OPENAI_API_KEY'' \<longrightarrow>
      exit_status (openai_main env oapi clock [] a) = 3 \<and>
      output_files (openai_main env oapi clock [] a) = [])"
  by (simp add: gemini_main_def openai_main_def require_key_def exit_status_def output_files_def)

text \<open>Both scripts without any key, and with their keys on an input without data rows.\<close>

theorem fatal_exits_witness:
  "key_missing empty_env ''GOOGLE_API_KEY'' \<and> key_missing empty_env ''OPENAI_API_KEY'' \<and>
   exit_status (gemini_main empty_env gemini_third_time_lucky no_jitter sample_clock
     [blank_first] sample_args) = 1 \<and>
   output_files (gemini_main empty_env gemini_third_time_lucky no_jitter sample_clock
     [blank_first] sample_args) = [] \<and>
   exit_status (openai_main empty_env openai_third_time_lucky sample_clock
     [blank_first] sample_args) = 2 \<and>
   output_files (openai_main empty_env openai_third_time_lucky sample_clock
     [blank_first] sample_args) = [] \<and>
   exit_status (gemini_main both_keys gemini_third_time_lucky no_jitter sample_clock
     [] sample_args) = 3 \<and>
   output_files (gemini_main both_keys gemini_third_time_lucky no_jitter sample_clock
     [] sample_args) = [] \<and>
   exit_status (openai_main both_keys openai_third_time_lucky sample_clock [] sample_args) = 3 \<and>
   output_files (openai_main both_keys openai_third_time_lucky sample_clock [] sample_args) = []"
proof -
  have m: "key_missing empty_env ''GOOGLE_API_KEY''" "key_missing empty_env ''OPENAI_API_KEY''"
    by (simp_all add: key_missing_def empty_env_def)
  have p: "\<not> key_missing both_keys ''GOOGLE_API_KEY''" "\<not> key_missing both_keys ''OPENAI_API_KEY''"
    by (simp_all add: key_missing_def both_keys_def)
  from fatal_exits [of empty_env gemini_third_time_lucky no_jitter sample_clock "[blank_first]"
      sample_args openai_third_time_lucky] m
  have 1: "exit_status (gemini_main empty_env gemini_third_time_lucky no_jitter sample_clock
     [blank_first] sample_args) = 1 \<and>
   output_files (gemini_main empty_env gemini_third_time_lucky no_jitter sample_clock
     [blank_first] sample_args) = [] \<and>
   exit_status (openai_main empty_env openai_third_time_lucky sample_clock
     [blank_first] sample_args) = 2 \<and>
   output_files (openai_main empty_env openai_third_time_lucky sample_clock
     [blank_first] sample_args) = []"
    by blast
  from fatal_exits [of both_keys gemini_third_time_lucky no_jitter sample_clock "[blank_first]"
      sample_args openai_third_time_lucky] p
  have 2: "exit_status (gemini_main both_keys gemini_third_time_lucky no_jitter sample_clock
     [] sample_args) = 3 \<and>
   output_files (gemini_main both_keys gemini_third_time_lucky no_jitter sample_clock
     [] sample_args) = [] \<and>
   exit_status (openai_main both_keys openai_third_time_lucky sample_clock [] sample_args) = 3 \<and>
   output_files (openai_main both_keys openai_third_time_lucky sample_clock [] sample_args) = []"
    by blast
  from m 1 2 show ?thesis
    by blast
qed

text \<open>
  C7 as stated asks for status 2 from each script. The Gemini script without
  \<open>GOOGLE_API_KEY\<close> exits with status 1.
\<close>

theorem gemini_missing_key_counterexample:
  "key_missing empty_env ''GOOGLE_API_KEY'' \<and>
   exit_status (gemini_main empty_env gemini_third_time_lucky no_jitter sample_clock
     [blank_first] sample_args) = 1 \<and>
   exit_status (gemini_main empty_env gemini_third_time_lucky no_jitter sample_clock
     [blank_first] sample_args) \<noteq> 2"
  by (simp add: gemini_main_def require_key_def exit_status_def key_missing_def empty_env_def)


section \<open>Round trip through the result file\<close>

text \<open>
  C8, as amended. Let the keys of every record be field names, as they are for the records
  the scripts build, and let no field name and no field be longer than the field size limit
  of the reader. Then \<open>write_results_csv\<close> writes a file, and reading that file back with
  the delimiter \<open>;\<close>, full quoting and the escape character of the writer gives the header
  and then, record by record, the texts of the fields in the order of the field names. The
  text of a string is the string itself, whatever characters it holds: delimiters, quote
  characters, escape characters, line breaks. \<open>None\<close> comes back as the empty string and an
  integer as its decimal digits.
\<close>

theorem csv_round_trip:
  assumes "fieldnames \<noteq> []"
    and "\<forall>r\<in>set rows. set (map fst r) \<subseteq> set fieldnames"
    and "\<forall>v\<in>set fieldnames. codepoints v \<le> limit"
    and "\<forall>r\<in>set rows. \<forall>v\<in>set (row_texts fieldnames r). codepoints v \<le> limit"
  shows "\<exists>bytes. write_results_csv fieldnames rows = Some bytes \<and>
           reparse (Some escapechar) limit bytes =
           Some (fieldnames # map (row_texts fieldnames) rows)"
proof -
  have same: "read_back (Some escapechar) = (\<lambda>s. s)"
    by (simp add: read_back_def fun_eq_iff)
  from reparse_written [where esc = "Some escapechar" and fieldnames = fieldnames and rows = rows
      and limit = limit] assms
  show ?thesis
    by (simp add: same)
qed

text \<open>
  A record whose response holds a delimiter, quote characters, a line break and an escape
  character comes back as it was.
\<close>

theorem csv_round_trip_witness:
  "Option.bind (write_results_csv gemini_fieldnames [tricky_row])
     (reparse (Some escapechar) field_size_limit) =
   Some [gemini_fieldnames,
     [''2025-01-01T00:00:00+00:00'', ''gemini'', ''gemini-2.5-flash'', ''2'', ''Buddhism'',
      [], [], [], ''p1'', ''Hva er buddhisme?'',
      [CHR ''a'', CHR '';'', CHR 0x22, CHR ''b'', CHR 0x22, CHR 0x0D, CHR 0x0A, CHR 0x5C, CHR ''n''],
      []]]"
proof -
  have names: "gemini_fieldnames \<noteq> []"
    by (simp add: gemini_fieldnames_def)
  have keys: "\<forall>r\<in>set [tricky_row]. set (map fst r) \<subseteq> set gemini_fieldnames"
    by (simp add: tricky_row_def gemini_row_keys del: set_map)
  have header: "\<forall>v\<in>set gemini_fieldnames. codepoints v \<le> field_size_limit"
    by (auto intro!: codepoints_short simp: gemini_fieldnames_def field_size_limit_def)
  have sizes: "\<forall>r\<in>set [tricky_row]. \<forall>v\<in>set (row_texts gemini_fieldnames r).
      codepoints v \<le> field_size_limit"
    by (auto intro!: codepoints_short simp: tricky_texts field_size_limit_def)
  from csv_round_trip [OF names keys header sizes] tricky_texts
  show ?thesis
    by auto
qed

text \<open>
  C8 as stated reads the file back with the delimiter and full quoting only. The writer
  writes an escape character twice, and a reader without escape character returns both: a
  response that is a single backslash comes back as two.
\<close>

theorem csv_round_trip_backslash_counterexample:
  "row_texts gemini_fieldnames backslash_row =
     [''2025-01-01T00:00:00+00:00'', ''gemini'', ''gemini-2.5-flash'', ''2'', ''Buddhism'',
      [], [], [], ''p1'', ''Hva er buddhisme?'', [CHR 0x5C], []] \<and>
   Option.bind (write_results_csv gemini_fieldnames [backslash_row])
     (reparse None field_size_limit) =
   Some [gemini_fieldnames,
     [''2025-01-01T00:00:00+00:00'', ''gemini'', ''gemini-2.5-flash'', ''2'', ''Buddhism'',
      [], [], [], ''p1'', ''Hva er buddhisme?'', [CHR 0x5C, CHR 0x5C], []]] \<and>
   Option.bind (write_results_csv gemini_fieldnames [backslash_row])
     (reparse None field_size_limit) \<noteq>
   Some [gemini_fieldnames, row_texts gemini_fieldnames backslash_row]"
proof -
  have names: "gemini_fieldnames \<noteq> []"
    by (simp add: gemini_fieldnames_def)
  have keys: "\<forall>r\<in>set [backslash_row]. set (map fst r) \<subseteq> set gemini_fieldnames"
    by (simp add: backslash_row_def gemini_row_keys del: set_map)
  have seen_names: "map (read_back None) gemini_fieldnames = gemini_fieldnames"
    by (simp add: gemini_fieldnames_def read_back_def escapechar_def)
  have seen_row: "map (read_back None) (row_texts gemini_fieldnames backslash_row) =
     [''2025-01-01T00:00:00+00:00'', ''gemini'', ''gemini-2.5-flash'', ''2'', ''Buddhism'',
      [], [], [], ''p1'', ''Hva er buddhisme?'', [CHR 0x5C, CHR 0x5C], []]"
    by (simp add: backslash_texts read_back_def escapechar_def)
  have header: "\<forall>v\<in>set gemini_fieldnames. codepoints (read_back None v) \<le> field_size_limit"
    using seen_names
    by (auto intro!: codepoints_short simp: gemini_fieldnames_def field_size_limit_def)
  have "\<forall>v\<in>set (map (read_back None) (row_texts gemini_fieldnames backslash_row)).
      codepoints v \<le> field_size_limit"
    unfolding seen_row by (auto intro!: codepoints_short simp: field_size_limit_def)
  then have sizes: "\<forall>r\<in>set [backslash_row]. \<forall>v\<in>set (row_texts gemini_fieldnames r).
      codepoints (read_back None v) \<le> field_size_limit"
    by simp
  from reparse_written [where esc = None, OF _ names keys header sizes] seen_names seen_row
  have "Option.bind (write_results_csv gemini_fieldnames [backslash_row])
     (reparse None field_size_limit) =
   Some [gemini_fieldnames,
     [''2025-01-01T00:00:00+00:00'', ''gemini'', ''gemini-2.5-flash'', ''2'', ''Buddhism'',
      [], [], [], ''p1'', ''Hva er buddhisme?'', [CHR 0x5C, CHR 0x5C], []]]"
    by auto
  then show ?thesis
    by (simp add: backslash_texts)
qed


section \<open>Row selection\<close>

text \<open>
  C9. On a non-empty list of data rows, the mode \<open>first\<close> selects exactly one pair, the
  first row with the visual index 2. The mode \<open>all\<close> selects every row in order, the row at
  position \<open>i\<close> counted from 0 with the visual index \<open>i + 2\<close>: counted from 1, the \<open>i\<close>-th
  row with \<open>i + 1\<close>.
\<close>

theorem row_selection:
  "select_rows ''first'' (r # rs) = Some [(2, r)] \<and>
   select_rows ''all'' rows_in = Some (map (\<lambda>i. (i + 2, rows_in ! i)) [0..<length rows_in])"
proof -
  have "map (\<lambda>(i, r). (i + 2, r)) (List.enumerate 0 rows_in) =
        map (\<lambda>i. (i + 2, rows_in ! i)) [0..<length rows_in]"
    by (rule nth_equalityI) (simp_all add: nth_enumerate_eq)
  then show ?thesis
    by (simp add: select_rows_def)
qed


section \<open>Prompt identifiers\<close>

text \<open>
  C10. The records of a row carry, as \<open>prompt_id\<close>, the letter \<open>p\<close> followed by the
  position of their prompt in the list that \<open>ensure_prompts\<close> returns, counted from 1, and
  not the number of the column the prompt comes from: the identifiers of a row with \<open>k\<close>
  prompts are \<open>p1\<close> to \<open>pk\<close>, each with the prompt at that position.
\<close>

theorem prompt_id_position:
  "map prompt_of (fst (gemini_rows_loop gapi uniform clock a [(visual_idx, row)] [] w)) =
     map numbered (List.enumerate 1 (ensure_prompts row)) \<and>
   map prompt_of (fst (openai_rows_loop oapi clock a [(visual_idx, row)] [] w)) =
     map numbered (List.enumerate 1 (ensure_prompts row)) \<and>
   map fst (List.enumerate 1 (ensure_prompts row)) = [1..<Suc (length (ensure_prompts row))]"
proof -
  have order: "call_order [(visual_idx, row)] =
      map (prompt_key visual_idx) (List.enumerate 1 (ensure_prompts row))"
    by (simp add: call_order_def)
  obtain g wg where g: "gemini_rows_loop gapi uniform clock a [(visual_idx, row)] [] w = ([] @ g, wg)"
    and kg: "map record_key g = call_order [(visual_idx, row)]"
    using gemini_rows_loop_appends by blast
  obtain og wo where o: "openai_rows_loop oapi clock a [(visual_idx, row)] [] w = ([] @ og, wo)"
    and ko: "map record_key og = call_order [(visual_idx, row)]"
    using openai_rows_loop_appends by blast
  from kg order have "map prompt_of g = map numbered (List.enumerate 1 (ensure_prompts row))"
    by (intro prompt_of_keys [where visual_idx = visual_idx]) simp
  moreover from ko order have "map prompt_of og = map numbered (List.enumerate 1 (ensure_prompts row))"
    by (intro prompt_of_keys [where visual_idx = visual_idx]) simp
  ultimately show ?thesis
    using g o by (simp add: map_fst_enumerate)
qed

text \<open>
  A row whose \<open>prompt_1\<close> is blank: the prompt of \<open>prompt_2\<close> is recorded as \<open>p1\<close>, that
  of \<open>prompt_3\<close> as \<open>p2\<close>.
\<close>

theorem prompt_id_position_witness:
  "map prompt_of (fst (gemini_rows_loop gemini_third_time_lucky no_jitter sample_clock sample_args
      [(2, blank_first)] [] world0)) =
     [(Some (PStr ''p1''), Some (PStr ''Hva er buddhisme?'')),
      (Some (PStr ''p2''), Some (PStr ''Hvem var Buddha?''))] \<and>
   map prompt_of (fst (openai_rows_loop openai_third_time_lucky sample_clock sample_args
      [(2, blank_first)] [] world0)) =
     [(Some (PStr ''p1''), Some (PStr ''Hva er buddhisme?'')),
      (Some (PStr ''p2''), Some (PStr ''Hvem var Buddha?''))]"
proof -
  have e: "map numbered (List.enumerate 1 (ensure_prompts blank_first)) =
     [(Some (PStr ''p1''), Some (PStr ''Hva er buddhisme?'')),
      (Some (PStr ''p2''), Some (PStr ''Hvem var Buddha?''))]"
    by code_simp
  from prompt_id_position [of gemini_third_time_lucky no_jitter sample_clock sample_args 2
      blank_first world0 openai_third_time_lucky] e
  show ?thesis
    by simp
qed


end
